theory Spec2Isabelle
  imports Complex_Main "HOL-Library.Log_Nat"
begin

section \<open>IEEE 754 binary64 values and arithmetic\<close>

text \<open>
  The notebooks compute with NumPy \<^verbatim>\<open>float64\<close> arrays. A value is a finite number (a
  real of the form \<open>m * 2 ^ e\<close> with \<open>\<bar>m\<bar> < 2 ^ 53\<close> and \<open>- 1074 \<le> e \<le> 971\<close>; \<open>Finite 0\<close> is
  \<^verbatim>\<open>+0.0\<close>), the negative zero, an infinity or \<^verbatim>\<open>nan\<close>. Every operation computes the
  exact result and rounds it to the nearest value, a tie to the even significand;
  a rounded magnitude of \<open>2 ^ 1024\<close> or more overflows to an infinity.
\<close>

datatype py_error = IndexError | ValueError

datatype float64 = Finite real | NegZero | PInf | NInf | NaN

text \<open>
  The exponent of the binade of \<open>x\<close>, not below that of the subnormal numbers:
  \<open>2 ^ expo x \<le> \<bar>x\<bar> < 2 ^ (expo x + 1)\<close> for \<open>\<bar>x\<bar> \<ge> 2 ^ - 1022\<close>.
\<close>

definition expo :: "real \<Rightarrow> int" where
  "expo x = max (bitlen \<lfloor>\<bar>x\<bar> * 2 ^ 1075\<rfloor> - 1076) (- 1022)"

definition ulp :: "real \<Rightarrow> real" where
  "ulp x = 2 powi (expo x - 52)"

text \<open>Rounding to the nearest integer, a tie to the even neighbour.\<close>

definition round_half_even :: "real \<Rightarrow> int" where
  "round_half_even x =
     (let f = \<lfloor>x\<rfloor>; d = x - of_int f
      in if d < 1 / 2 then f
         else if 1 / 2 < d then f + 1
         else if even f then f else f + 1)"

text \<open>Rounding a real to 53 significant bits, before the overflow check.\<close>

definition rnd :: "real \<Rightarrow> real" where
  "rnd x = of_int (round_half_even (x / ulp x)) * ulp x"

text \<open>
  The float for the exact result \<open>x\<close> of an operation; \<open>neg\<close> is the sign of a zero
  result.
\<close>

definition fl :: "bool \<Rightarrow> real \<Rightarrow> float64" where
  "fl neg x =
     (let r = rnd x
      in if 2 ^ 1024 \<le> \<bar>r\<bar> then (if x < 0 then NInf else PInf)
         else if r = 0 then (if neg then NegZero else Finite 0)
         else Finite r)"

fun valof :: "float64 \<Rightarrow> real" where
  "valof (Finite r) = r"
| "valof _ = 0"

fun is_finite :: "float64 \<Rightarrow> bool" where
  "is_finite (Finite r) = True"
| "is_finite NegZero = True"
| "is_finite _ = False"

fun is_zero :: "float64 \<Rightarrow> bool" where
  "is_zero (Finite r) = (r = 0)"
| "is_zero NegZero = True"
| "is_zero _ = False"

fun is_neg :: "float64 \<Rightarrow> bool" where
  "is_neg (Finite r) = (r < 0)"
| "is_neg NegZero = True"
| "is_neg NInf = True"
| "is_neg _ = False"

definition signed_inf :: "bool \<Rightarrow> float64" where
  "signed_inf neg = (if neg then NInf else PInf)"

definition signed_zero :: "bool \<Rightarrow> float64" where
  "signed_zero neg = (if neg then NegZero else Finite 0)"

definition fmul :: "float64 \<Rightarrow> float64 \<Rightarrow> float64" where
  "fmul a b =
     (if a = NaN \<or> b = NaN then NaN
      else if \<not> is_finite a \<or> \<not> is_finite b
      then (if is_zero a \<or> is_zero b then NaN else signed_inf (is_neg a \<noteq> is_neg b))
      else fl (is_neg a \<noteq> is_neg b) (valof a * valof b))"

definition fadd :: "float64 \<Rightarrow> float64 \<Rightarrow> float64" where
  "fadd a b =
     (if a = NaN \<or> b = NaN then NaN
      else if \<not> is_finite a
      then (if \<not> is_finite b \<and> is_neg a \<noteq> is_neg b then NaN else a)
      else if \<not> is_finite b then b
      else fl (a = NegZero \<and> b = NegZero) (valof a + valof b))"

definition fdiv :: "float64 \<Rightarrow> float64 \<Rightarrow> float64" where
  "fdiv a b =
     (if a = NaN \<or> b = NaN then NaN
      else if \<not> is_finite a
      then (if \<not> is_finite b then NaN else signed_inf (is_neg a \<noteq> is_neg b))
      else if \<not> is_finite b then signed_zero (is_neg a \<noteq> is_neg b)
      else if is_zero b
      then (if is_zero a then NaN else signed_inf (is_neg a \<noteq> is_neg b))
      else fl (is_neg a \<noteq> is_neg b) (valof a / valof b))"

fun fneg :: "float64 \<Rightarrow> float64" where
  "fneg (Finite r) = (if r = 0 then NegZero else Finite (- r))"
| "fneg NegZero = Finite 0"
| "fneg PInf = NInf"
| "fneg NInf = PInf"
| "fneg NaN = NaN"

text \<open>A decimal literal of the source denotes the nearest float.\<close>

definition literal :: "real \<Rightarrow> float64" where
  "literal q = fl False q"

text \<open>
  \<^verbatim>\<open>np.round\<close> rounds to the nearest integer, a tie to the even neighbour, and returns
  the integer as a float; a result of zero keeps the sign of the argument.
\<close>

fun np_round :: "float64 \<Rightarrow> float64" where
  "np_round (Finite r) =
     (if round_half_even r = 0 \<and> r < 0 then NegZero else Finite (of_int (round_half_even r)))"
| "np_round a = a"

text \<open>
  \<^verbatim>\<open>.astype(int)\<close> converts to \<^verbatim>\<open>int64\<close>, truncating towards zero. The conversion of a
  value outside the range of \<^verbatim>\<open>int64\<close>, of an infinity or of \<^verbatim>\<open>nan\<close> gives the smallest
  \<^verbatim>\<open>int64\<close> (the result of the conversion instruction of x86-64).
\<close>

definition trunc_zero :: "real \<Rightarrow> int" where
  "trunc_zero x = (if 0 \<le> x then \<lfloor>x\<rfloor> else \<lceil>x\<rceil>)"

fun astype_int :: "float64 \<Rightarrow> int" where
  "astype_int (Finite r) =
     (if - (2 ^ 63) \<le> trunc_zero r \<and> trunc_zero r < 2 ^ 63 then trunc_zero r else - (2 ^ 63))"
| "astype_int NegZero = 0"
| "astype_int _ = - (2 ^ 63)"

text \<open>The reals that are finite \<^verbatim>\<open>float64\<close> values.\<close>

definition representable :: "real \<Rightarrow> bool" where
  "representable x \<longleftrightarrow>
     (\<exists>m e :: int. x = of_int m * 2 powi e \<and> \<bar>m\<bar> < 2 ^ 53 \<and> - 1074 \<le> e \<and> e \<le> 971)"

fun is_float64 :: "float64 \<Rightarrow> bool" where
  "is_float64 (Finite r) = representable r"
| "is_float64 _ = True"

text \<open>
  The rounding rule in words, independent of how the rounding is computed: \<open>a\<close> is an
  integer nearest to \<open>t\<close>, and the even one when two integers are equally near.
\<close>

definition nearest_even :: "real \<Rightarrow> int \<Rightarrow> bool" where
  "nearest_even t a \<longleftrightarrow>
     \<bar>of_int a - t\<bar> \<le> 1 / 2 \<and> (\<bar>of_int a - t\<bar> = 1 / 2 \<longrightarrow> even a)"

section \<open>Python and NumPy indexing, broadcasting and summation\<close>

text \<open>Python indexing of a sequence of length \<open>n\<close>: a negative index counts from the end.\<close>

definition py_index :: "nat \<Rightarrow> int \<Rightarrow> py_error + nat" where
  "py_index n i =
     (let j = (if i < 0 then int n + i else i)
      in if 0 \<le> j \<and> j < int n then Inr (nat j) else Inl IndexError)"

definition np_getitem :: "'a list \<Rightarrow> int \<Rightarrow> py_error + 'a" where
  "np_getitem xs i = (case py_index (length xs) i of Inl e \<Rightarrow> Inl e | Inr k \<Rightarrow> Inr (xs ! k))"

text \<open>\<^verbatim>\<open>m[i, j]\<close> on a two-dimensional array.\<close>

definition np_getitem2 :: "'a list list \<Rightarrow> int \<Rightarrow> int \<Rightarrow> py_error + 'a" where
  "np_getitem2 m i j = (case np_getitem m i of Inl e \<Rightarrow> Inl e | Inr row \<Rightarrow> np_getitem row j)"

text \<open>Indexing an array with a list of integers (\<^verbatim>\<open>rec_input[jpopid]\<close>).\<close>

fun np_take :: "'a list \<Rightarrow> int list \<Rightarrow> py_error + 'a list" where
  "np_take xs [] = Inr []"
| "np_take xs (i # js) =
     (case np_getitem xs i of Inl e \<Rightarrow> Inl e
      | Inr x \<Rightarrow> (case np_take xs js of Inl e \<Rightarrow> Inl e | Inr ys \<Rightarrow> Inr (x # ys)))"

text \<open>
  Elementwise product of two one-dimensional arrays with NumPy broadcasting: equal
  lengths pair up, an array of length one is stretched, anything else raises
  \<^verbatim>\<open>ValueError: operands could not be broadcast together\<close>.
\<close>

definition np_mul :: "float64 list \<Rightarrow> float64 list \<Rightarrow> py_error + float64 list" where
  "np_mul xs ys =
     (if length xs = length ys then Inr (map2 fmul xs ys)
      else if length xs = 1 then Inr (map (fmul (hd xs)) ys)
      else if length ys = 1 then Inr (map (\<lambda>x. fmul x (hd ys)) xs)
      else Inl ValueError)"

text \<open>
  \<^verbatim>\<open>np.sum\<close> of a one-dimensional array of fewer than eight elements adds them in index
  order to an accumulator that starts at zero.
\<close>

definition np_sum :: "float64 list \<Rightarrow> float64" where
  "np_sum xs = foldl fadd (Finite 0) xs"

section \<open>The parameter table and the neuron parameters\<close>

text \<open>
  \<^verbatim>\<open>net_dict\<close> is unpickled from \<^verbatim>\<open>network_parameters.pkl\<close>; the fields are the ones
  the mesocircuit notebook reads. Matrices are lists of rows, the row being the target
  population.
\<close>

record net_dict =
  num_neurons :: "float64 list"
  extent :: float64
  indegrees :: "float64 list list"
  beta :: "float64 list list"
  mask_scaling :: float64
  weight_matrix_mean :: "float64 list list"
  weight_rel_std :: float64
  delay_offset_exc_inh :: "float64 list"
  prop_speed_exc_inh :: "float64 list"
  bg_rate :: float64
  weight_ext :: float64
  ext_indegrees :: "float64 list"

record neuron_params =
  C_m :: float64
  tau_m :: float64
  E_L :: float64
  V_th :: float64
  V_reset :: float64
  t_ref :: float64
  tau_syn_ex :: float64
  tau_syn_in :: float64

section \<open>Compensating for missing input from populations not simulated\<close>

text \<open>The dictionary \<^verbatim>\<open>neuron_params\<close> of the mesocircuit notebook.\<close>

definition meso_neuron_params :: neuron_params where
  "meso_neuron_params =
     \<lparr>C_m = Finite 250, tau_m = Finite 10, E_L = Finite (- 65), V_th = Finite (- 50),
      V_reset = Finite (- 65), t_ref = Finite 2, tau_syn_ex = Finite 2, tau_syn_in = Finite 8\<rparr>"

text \<open>
  The array of alternating excitatory and inhibitory synaptic time constants:
  \<^verbatim>\<open>np.array([[tau_syn_ex, tau_syn_in] for i in np.arange(4)]).flatten()\<close>.
\<close>

definition tau_syn_array :: "neuron_params \<Rightarrow> float64 list" where
  "tau_syn_array p = concat (map (\<lambda>i. [tau_syn_ex p, tau_syn_in p]) [0 ..< 4])"

text \<open>The firing rates of the eight cortical populations in the full-scale simulation.\<close>

definition rates_meso_full :: "float64 list" where
  "rates_meso_full =
     map literal [376 / 1000, 1415 / 1000, 1211 / 1000, 2824 / 1000,
                  2300 / 1000, 3767 / 1000, 1146 / 1000, 3518 / 1000]"

definition included_popids :: "int list" where
  "included_popids = [6, 7]"

definition excluded_popids :: "int list" where
  "excluded_popids = [0, 1, 2, 3, 4, 5]"

text \<open>
  The first five statements of the loop body, for the target population \<open>ipopid\<close>.
  Python evaluates \<^verbatim>\<open>frac_rates * frac_weights_tau_syn * net_dict['indegrees'][ipopid][:-1]\<close>
  from the left: the first product, then the row of the in-degree matrix, then the
  second product. The slice \<^verbatim>\<open>[:-1]\<close> drops the last entry and never fails; the
  division of an array by a scalar never raises.
\<close>

definition rec_input ::
  "net_dict \<Rightarrow> neuron_params \<Rightarrow> float64 list \<Rightarrow> float64 list \<Rightarrow> int \<Rightarrow>
   py_error + float64 list" where
  "rec_input nd p tau_syn rates_meso ipopid =
     (case np_getitem (weight_matrix_mean nd) ipopid of Inl e \<Rightarrow> Inl e
      | Inr wrow \<Rightarrow>
     (case np_mul (butlast wrow) tau_syn of Inl e \<Rightarrow> Inl e
      | Inr weights_tau_syn_rec \<Rightarrow>
     (let weight_tau_syn_ext = fmul (weight_ext nd) (tau_syn_ex p);
          frac_weights_tau_syn = map (\<lambda>x. fdiv x weight_tau_syn_ext) weights_tau_syn_rec;
          frac_rates = map (\<lambda>r. fdiv r (bg_rate nd)) rates_meso
      in (case np_mul frac_rates frac_weights_tau_syn of Inl e \<Rightarrow> Inl e
          | Inr rates_weights \<Rightarrow>
         (case np_getitem (indegrees nd) ipopid of Inl e \<Rightarrow> Inl e
          | Inr krow \<Rightarrow> np_mul rates_weights (butlast krow))))))"

text \<open>
  \<^verbatim>\<open>for jpopid in [excluded_popids]: indegree_modifications[i] += np.sum(rec_input[jpopid])\<close>:
  the loop runs over a list whose elements are index lists (in the notebook the one
  list of all excluded populations).
\<close>

fun add_excluded ::
  "float64 list \<Rightarrow> int list list \<Rightarrow> nat \<Rightarrow> float64 list \<Rightarrow> py_error + float64 list" where
  "add_excluded inp [] i mods = Inr mods"
| "add_excluded inp (jpopid # rest) i mods =
     (case np_take inp jpopid of Inl e \<Rightarrow> Inl e
      | Inr sel \<Rightarrow>
          if i < length mods
          then add_excluded inp rest i (mods[i := fadd (mods ! i) (np_sum sel)])
          else Inl IndexError)"

text \<open>\<^verbatim>\<open>for i, ipopid in enumerate(included_popids): ...\<close>\<close>

fun modification_loop ::
  "net_dict \<Rightarrow> neuron_params \<Rightarrow> float64 list \<Rightarrow> float64 list \<Rightarrow> int list \<Rightarrow>
   (nat \<times> int) list \<Rightarrow> float64 list \<Rightarrow> py_error + float64 list" where
  "modification_loop nd p tau_syn rates_meso excl [] mods = Inr mods"
| "modification_loop nd p tau_syn rates_meso excl ((i, ipopid) # rest) mods =
     (case rec_input nd p tau_syn rates_meso ipopid of Inl e \<Rightarrow> Inl e
      | Inr inp \<Rightarrow>
     (case add_excluded inp [excl] i mods of Inl e \<Rightarrow> Inl e
      | Inr mods' \<Rightarrow> modification_loop nd p tau_syn rates_meso excl rest mods'))"

text \<open>
  The whole cell: \<^verbatim>\<open>indegree_modifications = np.zeros(len(included_popids))\<close> and the
  loop. The lists of included and excluded populations are variables of the cell.
\<close>

definition indegree_modifications_of ::
  "net_dict \<Rightarrow> neuron_params \<Rightarrow> float64 list \<Rightarrow> float64 list \<Rightarrow> int list \<Rightarrow> int list \<Rightarrow>
   py_error + float64 list" where
  "indegree_modifications_of nd p tau_syn rates_meso incl excl =
     modification_loop nd p tau_syn rates_meso excl (enumerate 0 incl)
       (replicate (length incl) (Finite 0))"

definition indegree_modifications ::
  "net_dict \<Rightarrow> neuron_params \<Rightarrow> float64 list \<Rightarrow> float64 list \<Rightarrow> py_error + float64 list" where
  "indegree_modifications nd p tau_syn rates_meso =
     indegree_modifications_of nd p tau_syn rates_meso included_popids excluded_popids"

text \<open>
  \<^verbatim>\<open>np.round(net_dict['ext_indegrees'][popid] + indegree_modifications[k]).astype(int)\<close>:
  first the sum that is rounded, then the whole expression.
\<close>

definition K_ext_total :: "net_dict \<Rightarrow> float64 list \<Rightarrow> int \<Rightarrow> int \<Rightarrow> py_error + float64" where
  "K_ext_total nd mods popid k =
     (case np_getitem (ext_indegrees nd) popid of Inl e \<Rightarrow> Inl e
      | Inr base \<Rightarrow>
     (case np_getitem mods k of Inl e \<Rightarrow> Inl e
      | Inr m \<Rightarrow> Inr (fadd base m)))"

definition K_ext :: "net_dict \<Rightarrow> float64 list \<Rightarrow> int \<Rightarrow> int \<Rightarrow> py_error + int" where
  "K_ext nd mods popid k =
     (case K_ext_total nd mods popid k of Inl e \<Rightarrow> Inl e
      | Inr t \<Rightarrow> Inr (astype_int (np_round t)))"

definition K_ext_L6E :: "net_dict \<Rightarrow> float64 list \<Rightarrow> py_error + int" where
  "K_ext_L6E nd mods = K_ext nd mods 6 0"

definition K_ext_L6I :: "net_dict \<Rightarrow> float64 list \<Rightarrow> py_error + int" where
  "K_ext_L6I nd mods = K_ext nd mods 7 1"

text \<open>The two cells in sequence: the modifications, then the new external in-degrees.\<close>

definition adjusted_ext_indegrees_of ::
  "net_dict \<Rightarrow> neuron_params \<Rightarrow> float64 list \<Rightarrow> float64 list \<Rightarrow> int list \<Rightarrow> int list \<Rightarrow>
   py_error + int \<times> int" where
  "adjusted_ext_indegrees_of nd p tau_syn rates_meso incl excl =
     (case indegree_modifications_of nd p tau_syn rates_meso incl excl of Inl e \<Rightarrow> Inl e
      | Inr mods \<Rightarrow>
     (case K_ext_L6E nd mods of Inl e \<Rightarrow> Inl e
      | Inr a \<Rightarrow>
     (case K_ext_L6I nd mods of Inl e \<Rightarrow> Inl e
      | Inr b \<Rightarrow> Inr (a, b))))"

definition adjusted_ext_indegrees ::
  "net_dict \<Rightarrow> neuron_params \<Rightarrow> float64 list \<Rightarrow> float64 list \<Rightarrow> py_error + int \<times> int" where
  "adjusted_ext_indegrees nd p tau_syn rates_meso =
     adjusted_ext_indegrees_of nd p tau_syn rates_meso included_popids excluded_popids"

section \<open>The compensation as the design describes it\<close>

text \<open>
  The shapes of the full model: nine populations in the matrices (eight cortical ones
  and TC), eight synaptic time constants and eight reference rates.
\<close>

definition well_shaped :: "net_dict \<Rightarrow> float64 list \<Rightarrow> float64 list \<Rightarrow> bool" where
  "well_shaped nd tau_syn rates_meso \<longleftrightarrow>
     7 < length (weight_matrix_mean nd) \<and> 7 < length (indegrees nd) \<and>
     length (weight_matrix_mean nd ! 6) = 9 \<and> length (weight_matrix_mean nd ! 7) = 9 \<and>
     length (indegrees nd ! 6) = 9 \<and> length (indegrees nd ! 7) = 9 \<and>
     length tau_syn = 8 \<and> length rates_meso = 8"

text \<open>
  The contribution of source population \<open>j\<close> to target population \<open>i\<close> in the words of
  the design, every operation a \<^verbatim>\<open>float64\<close> operation: mean weight times synaptic time
  constant over external weight times external synaptic time constant, times reference
  rate over background rate, times the recurrent in-degree.
\<close>

definition contribution ::
  "net_dict \<Rightarrow> neuron_params \<Rightarrow> float64 list \<Rightarrow> float64 list \<Rightarrow> nat \<Rightarrow> nat \<Rightarrow> float64" where
  "contribution nd p tau_syn rates_meso i j =
     fmul (fmul (fdiv (fmul (weight_matrix_mean nd ! i ! j) (tau_syn ! j))
                      (fmul (weight_ext nd) (tau_syn_ex p)))
                (fdiv (rates_meso ! j) (bg_rate nd)))
          (indegrees nd ! i ! j)"

text \<open>The sum over the excluded populations 0 to 5, added in this order starting from zero.\<close>

definition compensation_sum ::
  "net_dict \<Rightarrow> neuron_params \<Rightarrow> float64 list \<Rightarrow> float64 list \<Rightarrow> nat \<Rightarrow> float64" where
  "compensation_sum nd p tau_syn rates_meso i =
     foldl fadd (Finite 0) (map (contribution nd p tau_syn rates_meso i) [0 ..< 6])"

text \<open>The same contribution and sum over the real numbers, without any rounding.\<close>

definition exact_contribution ::
  "net_dict \<Rightarrow> neuron_params \<Rightarrow> float64 list \<Rightarrow> float64 list \<Rightarrow> nat \<Rightarrow> nat \<Rightarrow> real" where
  "exact_contribution nd p tau_syn rates_meso i j =
     (valof (weight_matrix_mean nd ! i ! j) * valof (tau_syn ! j))
       / (valof (weight_ext nd) * valof (tau_syn_ex p))
       * (valof (rates_meso ! j) / valof (bg_rate nd)) * valof (indegrees nd ! i ! j)"

definition exact_sum ::
  "net_dict \<Rightarrow> neuron_params \<Rightarrow> float64 list \<Rightarrow> float64 list \<Rightarrow> nat \<Rightarrow> real" where
  "exact_sum nd p tau_syn rates_meso i =
     (\<Sum>j = 0 ..< 6. exact_contribution nd p tau_syn rates_meso i j)"

text \<open>
  The mean drive of the excluded populations onto target \<open>i\<close> over the real numbers:
  the sum of mean weight times synaptic time constant times reference rate times
  recurrent in-degree.
\<close>

definition exact_drive :: "net_dict \<Rightarrow> float64 list \<Rightarrow> float64 list \<Rightarrow> nat \<Rightarrow> real" where
  "exact_drive nd tau_syn rates_meso i =
     (\<Sum>j = 0 ..< 6. valof (weight_matrix_mean nd ! i ! j) * valof (tau_syn ! j)
                        * valof (rates_meso ! j) * valof (indegrees nd ! i ! j))"


section \<open>The derived quantities of the mesocircuit notebook as state transformers\<close>

text \<open>
  The namespace of the notebook: the unpickled table and the variables the cells assign
  (prefixed with \<open>v_\<close>). A cell maps the namespace to the updated namespace, or to
  the exception it raises. No variable is bound to an array of the table: the cells
  bind scalars read from it and freshly allocated arrays.
\<close>

record notebook =
  net_dict :: net_dict
  v_N_L6E :: int
  v_N_L6I :: int
  v_extent :: float64
  v_neuron_params :: neuron_params
  v_K_rec :: "float64 \<times> float64 \<times> float64 \<times> float64"
  v_beta_rec :: "float64 \<times> float64 \<times> float64 \<times> float64"
  v_mask_scaling :: float64
  v_w_ex :: "float64 \<times> float64"
  v_w_in :: "float64 \<times> float64"
  v_delay_offset :: float64
  v_prop_speed :: float64
  v_bg_rate :: float64
  v_delay_poisson :: float64
  v_rates_meso :: "float64 list"
  v_tau_syn :: "float64 list"
  v_indegree_modifications :: "float64 list"
  v_K_ext_L6E :: int
  v_K_ext_L6I :: int

text \<open>The four entries \<^verbatim>\<open>m[6, 6]\<close>, \<^verbatim>\<open>m[7, 6]\<close>, \<^verbatim>\<open>m[6, 7]\<close>, \<^verbatim>\<open>m[7, 7]\<close>, read in this order.\<close>

definition L6_entries ::
  "float64 list list \<Rightarrow> py_error + float64 \<times> float64 \<times> float64 \<times> float64" where
  "L6_entries m =
     (case np_getitem2 m 6 6 of Inl e \<Rightarrow> Inl e | Inr ee \<Rightarrow>
     (case np_getitem2 m 7 6 of Inl e \<Rightarrow> Inl e | Inr ei \<Rightarrow>
     (case np_getitem2 m 6 7 of Inl e \<Rightarrow> Inl e | Inr ie \<Rightarrow>
     (case np_getitem2 m 7 7 of Inl e \<Rightarrow> Inl e | Inr ii \<Rightarrow> Inr (ee, ei, ie, ii)))))"

definition N_scaling :: float64 where
  "N_scaling = literal (45 / 1000)"

definition cell_num_neurons :: "notebook \<Rightarrow> py_error + notebook" where
  "cell_num_neurons s =
     (case np_getitem (num_neurons (net_dict s)) 6 of Inl e \<Rightarrow> Inl e | Inr n6 \<Rightarrow>
     (case np_getitem (num_neurons (net_dict s)) 7 of Inl e \<Rightarrow> Inl e | Inr n7 \<Rightarrow>
        Inr (s\<lparr>v_N_L6E := astype_int (np_round (fmul n6 N_scaling)),
               v_N_L6I := astype_int (np_round (fmul n7 N_scaling))\<rparr>)))"

definition cell_extent :: "notebook \<Rightarrow> py_error + notebook" where
  "cell_extent s = Inr (s\<lparr>v_extent := extent (net_dict s)\<rparr>)"

definition cell_neuron_params :: "notebook \<Rightarrow> py_error + notebook" where
  "cell_neuron_params s =
     Inr (s\<lparr>v_neuron_params := meso_neuron_params\<rparr>)"

definition cell_indegrees :: "notebook \<Rightarrow> py_error + notebook" where
  "cell_indegrees s =
     (case L6_entries (indegrees (net_dict s)) of Inl e \<Rightarrow> Inl e
      | Inr ks \<Rightarrow> Inr (s\<lparr>v_K_rec := ks\<rparr>))"

definition cell_beta :: "notebook \<Rightarrow> py_error + notebook" where
  "cell_beta s =
     (case L6_entries (beta (net_dict s)) of Inl e \<Rightarrow> Inl e
      | Inr bs \<Rightarrow> Inr (s\<lparr>v_beta_rec := bs\<rparr>))"

definition cell_mask_scaling :: "notebook \<Rightarrow> py_error + notebook" where
  "cell_mask_scaling s = Inr (s\<lparr>v_mask_scaling := mask_scaling (net_dict s)\<rparr>)"

definition cell_weights :: "notebook \<Rightarrow> py_error + notebook" where
  "cell_weights s =
     (case np_getitem2 (weight_matrix_mean (net_dict s)) 6 6 of Inl e \<Rightarrow> Inl e
      | Inr w_mean_ex \<Rightarrow>
     (case np_getitem2 (weight_matrix_mean (net_dict s)) 7 7 of Inl e \<Rightarrow> Inl e
      | Inr w_mean_in \<Rightarrow>
        Inr (s\<lparr>v_w_ex := (w_mean_ex, fmul w_mean_ex (weight_rel_std (net_dict s))),
               v_w_in := (w_mean_in, fmul (fneg w_mean_in) (weight_rel_std (net_dict s)))\<rparr>)))"

definition cell_delays :: "notebook \<Rightarrow> py_error + notebook" where
  "cell_delays s =
     (case np_getitem (delay_offset_exc_inh (net_dict s)) 0 of Inl e \<Rightarrow> Inl e
      | Inr d \<Rightarrow>
     (case np_getitem (prop_speed_exc_inh (net_dict s)) 0 of Inl e \<Rightarrow> Inl e
      | Inr v \<Rightarrow> Inr (s\<lparr>v_delay_offset := d, v_prop_speed := v\<rparr>)))"

definition cell_bg_rate :: "notebook \<Rightarrow> py_error + notebook" where
  "cell_bg_rate s = Inr (s\<lparr>v_bg_rate := bg_rate (net_dict s), v_delay_poisson := Finite 1\<rparr>)"

definition cell_rates_meso :: "notebook \<Rightarrow> py_error + notebook" where
  "cell_rates_meso s = Inr (s\<lparr>v_rates_meso := rates_meso_full\<rparr>)"

definition cell_tau_syn :: "notebook \<Rightarrow> py_error + notebook" where
  "cell_tau_syn s = Inr (s\<lparr>v_tau_syn := tau_syn_array (v_neuron_params s)\<rparr>)"

definition cell_indegree_modifications :: "notebook \<Rightarrow> py_error + notebook" where
  "cell_indegree_modifications s =
     (case indegree_modifications (net_dict s) (v_neuron_params s) (v_tau_syn s) (v_rates_meso s)
      of Inl e \<Rightarrow> Inl e
      | Inr mods \<Rightarrow> Inr (s\<lparr>v_indegree_modifications := mods\<rparr>))"

definition cell_K_ext :: "notebook \<Rightarrow> py_error + notebook" where
  "cell_K_ext s =
     (case K_ext_L6E (net_dict s) (v_indegree_modifications s) of Inl e \<Rightarrow> Inl e
      | Inr a \<Rightarrow>
     (case K_ext_L6I (net_dict s) (v_indegree_modifications s) of Inl e \<Rightarrow> Inl e
      | Inr b \<Rightarrow> Inr (s\<lparr>v_K_ext_L6E := a, v_K_ext_L6I := b\<rparr>)))"

text \<open>Cells run top to bottom; an exception stops the run.\<close>

fun run_cells :: "(notebook \<Rightarrow> py_error + notebook) list \<Rightarrow> notebook \<Rightarrow> py_error + notebook" where
  "run_cells [] s = Inr s"
| "run_cells (c # cs) s = (case c s of Inl e \<Rightarrow> Inl e | Inr s' \<Rightarrow> run_cells cs s')"

definition derived_quantity_cells :: "(notebook \<Rightarrow> py_error + notebook) list" where
  "derived_quantity_cells =
     [cell_num_neurons, cell_extent, cell_neuron_params, cell_indegrees, cell_beta,
      cell_mask_scaling, cell_weights, cell_delays, cell_bg_rate, cell_rates_meso,
      cell_tau_syn, cell_indegree_modifications, cell_K_ext]"

text \<open>The namespace after \<^verbatim>\<open>pickle.load\<close>: the table, and no variable assigned yet.\<close>

definition loaded :: "net_dict \<Rightarrow> notebook" where
  "loaded nd =
     \<lparr>net_dict = nd, v_N_L6E = 0, v_N_L6I = 0, v_extent = Finite 0,
      v_neuron_params = \<lparr>C_m = Finite 0, tau_m = Finite 0, E_L = Finite 0, V_th = Finite 0,
                         V_reset = Finite 0, t_ref = Finite 0, tau_syn_ex = Finite 0,
                         tau_syn_in = Finite 0\<rparr>,
      v_K_rec = (Finite 0, Finite 0, Finite 0, Finite 0),
      v_beta_rec = (Finite 0, Finite 0, Finite 0, Finite 0), v_mask_scaling = Finite 0,
      v_w_ex = (Finite 0, Finite 0), v_w_in = (Finite 0, Finite 0),
      v_delay_offset = Finite 0, v_prop_speed = Finite 0,
      v_bg_rate = Finite 0, v_delay_poisson = Finite 0, v_rates_meso = [], v_tau_syn = [],
      v_indegree_modifications = [], v_K_ext_L6E = 0, v_K_ext_L6I = 0\<rparr>"

section \<open>Concrete inputs\<close>

text \<open>
  A table with background rate 1 and external weight 1 whose rows 6 and 7 of the
  weight and in-degree matrices are \<open>wrow\<close> and \<open>krow\<close>.
\<close>

definition table_with :: "real list \<Rightarrow> real list \<Rightarrow> real list \<Rightarrow> net_dict" where
  "table_with wrow krow ext =
     \<lparr>num_neurons = map Finite [100, 100, 100, 100, 100, 100, 1000, 250, 50],
      extent = Finite 4,
      indegrees = replicate 9 (map Finite krow),
      beta = replicate 9 (replicate 9 (Finite (1 / 4))),
      mask_scaling = Finite 5, weight_matrix_mean = replicate 9 (map Finite wrow),
      weight_rel_std = Finite (1 / 8),
      delay_offset_exc_inh = [Finite (1 / 2), Finite (1 / 2)],
      prop_speed_exc_inh = [Finite (1 / 4), Finite (1 / 4)],
      bg_rate = Finite 1, weight_ext = Finite 1, ext_indegrees = map Finite ext\<rparr>"

text \<open>One excitatory source, population 0: weight 10, in-degree 100.\<close>

definition nd_exc :: net_dict where
  "nd_exc = table_with [10, 0, 0, 0, 0, 0, 0, 0, 0] [100, 0, 0, 0, 0, 0, 0, 0, 0]
              [1, 1, 1, 1, 1, 1, 5 / 2, 35, 0]"

text \<open>One inhibitory source, population 3: weight -10, in-degree 100.\<close>

definition nd_inh :: net_dict where
  "nd_inh = table_with [0, 0, 0, - 10, 0, 0, 0, 0, 0] [0, 0, 0, 100, 0, 0, 0, 0, 0]
              [1, 1, 1, 1, 1, 1, 5 / 2, 35, 0]"

text \<open>One source, population 0, of weight 5 and in-degree 1; original in-degree 2.\<close>

definition nd_five :: net_dict where
  "nd_five = table_with [5, 0, 0, 0, 0, 0, 0, 0, 0] [1, 0, 0, 0, 0, 0, 0, 0, 0]
               [1, 1, 1, 1, 1, 1, 2, 2, 0]"

definition rates_two :: "float64 list" where
  "rates_two = map Finite [2, 2, 2, 2, 2, 2, 2, 2]"

text \<open>The rate \<^verbatim>\<open>0.1\<close> for population 0.\<close>

definition rates_tenth :: "float64 list" where
  "rates_tenth = literal (1 / 10) # map Finite [2, 2, 2, 2, 2, 2, 2]"

text \<open>The rate \<^verbatim>\<open>1e16\<close> for population 0.\<close>

definition rates_huge :: "float64 list" where
  "rates_huge = map Finite [10 ^ 16, 2, 2, 2, 2, 2, 2, 2]"

text \<open>
  The table \<open>nd_exc\<close> with other entries for the included populations 6 and 7 and for
  TC, and rates that differ for the included populations only.
\<close>

definition nd_exc_other :: net_dict where
  "nd_exc_other = table_with [10, 0, 0, 0, 0, 0, 3, - 4, 5] [100, 0, 0, 0, 0, 0, 7, 8, 9]
                    [1, 1, 1, 1, 1, 1, 5 / 2, 35, 0]"

definition rates_other :: "float64 list" where
  "rates_other = map Finite [2, 2, 2, 2, 2, 2, 11, 13]"


section \<open>The conversion to \<^verbatim>\<open>int64\<close> in words\<close>

text \<open>
  A float whose rounding to the nearest integer, a tie to even, lies within \<^verbatim>\<open>int64\<close>:
  it is finite, at least \<open>- 2 ^ 63 - 1 / 2\<close> and below \<open>2 ^ 63 - 1 / 2\<close>.
\<close>

definition rounds_to_int64 :: "float64 \<Rightarrow> bool" where
  "rounds_to_int64 t \<longleftrightarrow> is_finite t \<and> - (2 ^ 63) - 1 / 2 \<le> valof t \<and> valof t < 2 ^ 63 - 1 / 2"

text \<open>
  What \<^verbatim>\<open>np.round(t).astype(int)\<close> is to return: the nearest integer, a tie to even,
  when that is an \<^verbatim>\<open>int64\<close>, and the smallest \<^verbatim>\<open>int64\<close> otherwise.
\<close>

definition rounded_int64 :: "float64 \<Rightarrow> int \<Rightarrow> bool" where
  "rounded_int64 t a \<longleftrightarrow>
     (if rounds_to_int64 t then nearest_even (valof t) a else a = - (2 ^ 63))"

section \<open>Binades\<close>

lemma pow2_less_exp: "(2::real) powi m < 2 powi n \<Longrightarrow> m < n"
  using power_int_increasing [of n m "2::real"] by (cases "m < n") simp_all

lemma pow2_le_exp: "(2::real) powi m \<le> 2 powi n \<Longrightarrow> m \<le> n"
  using power_int_strict_increasing [of n m "2::real"] by (cases "m \<le> n") simp_all

lemma bitlen_floor_bounds:
  fixes a c :: real
  assumes "0 < \<lfloor>a * c\<rfloor>"
  shows "2 powi (bitlen \<lfloor>a * c\<rfloor> - 1) \<le> a * c" and "a * c < 2 powi (bitlen \<lfloor>a * c\<rfloor>)"
proof -
  let ?N = "\<lfloor>a * c\<rfloor>"
  let ?b = "bitlen ?N"
  have b: "1 \<le> ?b" using assms bitlen_eq_zero_iff [of ?N] bitlen_nonneg [of ?N] by linarith
  from bitlen_bounds [OF assms] have lo: "2 ^ nat (?b - 1) \<le> ?N" and hi: "?N < 2 ^ nat ?b"
    by simp_all
  from lo have "(2::real) ^ nat (?b - 1) \<le> real_of_int ?N"
    using of_int_le_iff [of "2 ^ nat (?b - 1)" ?N, where ?'a = real] by simp
  moreover have "real_of_int ?N \<le> a * c" by linarith
  ultimately have "2 ^ nat (?b - 1) \<le> a * c" by linarith
  with b show "2 powi (?b - 1) \<le> a * c" by (simp add: power_int_def)
  from hi have "?N + 1 \<le> 2 ^ nat ?b" by linarith
  then have "real_of_int (?N + 1) \<le> (2::real) ^ nat ?b"
    using of_int_le_iff [of "?N + 1" "2 ^ nat ?b", where ?'a = real] by simp
  moreover have "a * c < real_of_int (?N + 1)" by linarith
  ultimately have "a * c < 2 ^ nat ?b" by linarith
  with b show "a * c < 2 powi ?b" by (simp add: power_int_def)
qed

lemma expo_ge: "- 1022 \<le> expo x"
  by (simp add: expo_def)

lemma expo_upper: "\<bar>x\<bar> < 2 powi (expo x + 1)"
proof -
  define c :: real where "c = 2 ^ 1075"
  have c: "0 < c" "c = 2 powi 1075" by (simp_all add: c_def)
  let ?N = "\<lfloor>\<bar>x\<bar> * c\<rfloor>"
  have e: "expo x = max (bitlen ?N - 1076) (- 1022)" by (simp add: expo_def c_def)
  have N0: "0 \<le> ?N" using c(1) by simp
  have "\<bar>x\<bar> * c < 2 powi (expo x + 1 + 1075)"
  proof (cases "?N = 0")
    case True
    then have "\<bar>x\<bar> * c < 1" by linarith
    also have "(1::real) = 2 powi 0" by simp
    also have "(2::real) powi 0 \<le> 2 powi (expo x + 1 + 1075)"
      using expo_ge [of x] by (intro power_int_increasing) simp_all
    finally show ?thesis .
  next
    case False
    with N0 have pos: "0 < ?N" by linarith
    have "\<bar>x\<bar> * c < 2 powi (bitlen ?N)" by (rule bitlen_floor_bounds(2) [OF pos])
    also have "(2::real) powi (bitlen ?N) \<le> 2 powi (expo x + 1 + 1075)"
      by (intro power_int_increasing) (simp_all add: e)
    finally show ?thesis .
  qed
  also have "(2::real) powi (expo x + 1 + 1075) = 2 powi (expo x + 1) * 2 powi 1075"
    by (rule power_int_add) simp
  also have "\<dots> = 2 powi (expo x + 1) * c" by (simp only: c(2))
  finally show ?thesis using c(1) by simp
qed

lemma expo_lower:
  assumes "- 1022 < expo x"
  shows "2 powi expo x \<le> \<bar>x\<bar>"
proof -
  define c :: real where "c = 2 ^ 1075"
  have c: "0 < c" "c = 2 powi 1075" by (simp_all add: c_def)
  let ?N = "\<lfloor>\<bar>x\<bar> * c\<rfloor>"
  let ?b = "bitlen ?N"
  have e': "expo x = max (?b - 1076) (- 1022)" by (simp add: expo_def c_def)
  with assms have e: "expo x = ?b - 1076" by (simp add: max_def split: if_splits)
  with assms have b: "54 < ?b" by simp
  then have pos: "0 < ?N" using bitlen_eq_zero_iff [of ?N] by linarith
  have "(2::real) powi (expo x + 1075) = 2 powi (?b - 1)" by (simp add: e)
  also have "\<dots> \<le> \<bar>x\<bar> * c" by (rule bitlen_floor_bounds(1) [OF pos])
  finally have "2 powi (expo x + 1075) \<le> \<bar>x\<bar> * c" .
  moreover have "(2::real) powi (expo x + 1075) = 2 powi (expo x) * 2 powi 1075"
    by (rule power_int_add) simp
  moreover have "(2::real) powi (expo x) * 2 powi 1075 = 2 powi (expo x) * c" by (simp only: c(2))
  ultimately show ?thesis using c(1) by simp
qed

lemma expo_eqI:
  assumes "2 powi k \<le> \<bar>x\<bar>" and "\<bar>x\<bar> < 2 powi (k + 1)" and "- 1022 \<le> k"
  shows "expo x = k"
proof -
  have "(2::real) powi k < 2 powi (expo x + 1)"
    using assms(1) expo_upper [of x] by linarith
  then have "k < expo x + 1" by (rule pow2_less_exp)
  then have le: "k \<le> expo x" by simp
  have "expo x \<le> k"
  proof (rule ccontr)
    assume "\<not> expo x \<le> k"
    then have gt: "k < expo x" by simp
    with assms(3) have "- 1022 < expo x" by simp
    from expo_lower [OF this] assms(2) have "(2::real) powi expo x < 2 powi (k + 1)" by linarith
    then have "expo x < k + 1" by (rule pow2_less_exp)
    with gt show False by simp
  qed
  with le show ?thesis by simp
qed

lemma expo_subnormal:
  assumes "\<bar>x\<bar> < 2 powi (- 1022)"
  shows "expo x = - 1022"
proof (rule ccontr)
  assume "expo x \<noteq> - 1022"
  with expo_ge [of x] have gt: "- 1022 < expo x" by simp
  from expo_lower [OF gt] assms have "(2::real) powi expo x < 2 powi (- 1022)" by linarith
  then have "expo x < - 1022" by (rule pow2_less_exp)
  with gt show False by simp
qed

lemma expo_minus [simp]: "expo (- x) = expo x"
  by (simp add: expo_def)

lemma expo_mono:
  assumes "\<bar>x\<bar> \<le> \<bar>y\<bar>"
  shows "expo x \<le> expo y"
proof (cases "- 1022 < expo x")
  case True
  from expo_lower [OF True] assms expo_upper [of y]
  have "(2::real) powi expo x < 2 powi (expo y + 1)" by linarith
  then have "expo x < expo y + 1" by (rule pow2_less_exp)
  then show ?thesis by simp
next
  case False
  with expo_ge [of x] have "expo x = - 1022" by simp
  with expo_ge [of y] show ?thesis by simp
qed


section \<open>Rounding to an integer\<close>

lemma round_half_even_cases:
  "round_half_even x = \<lfloor>x\<rfloor> \<and> x - of_int \<lfloor>x\<rfloor> \<le> 1 / 2 \<or>
   round_half_even x = \<lfloor>x\<rfloor> + 1 \<and> 1 / 2 \<le> x - of_int \<lfloor>x\<rfloor>"
  by (simp add: round_half_even_def Let_def)

lemma round_half_even_error: "\<bar>of_int (round_half_even x) - x\<bar> \<le> 1 / 2"
  using round_half_even_cases [of x] by (auto simp: abs_le_iff)

lemma round_half_even_of_int [simp]: "round_half_even (of_int n) = n"
  by (simp add: round_half_even_def)

lemma round_half_even_tie:
  "round_half_even (of_int n + 1 / 2) = (if even n then n else n + 1)"
proof -
  have "\<lfloor>of_int n + (1 / 2 :: real)\<rfloor> = n" by linarith
  then show ?thesis by (simp add: round_half_even_def Let_def)
qed

lemma round_half_even_mono:
  assumes "x \<le> y"
  shows "round_half_even x \<le> round_half_even y"
proof (cases "\<lfloor>x\<rfloor> = \<lfloor>y\<rfloor>")
  case True
  with assms show ?thesis by (auto simp: round_half_even_def Let_def)
next
  case False
  with assms have "\<lfloor>x\<rfloor> + 1 \<le> \<lfloor>y\<rfloor>" using floor_mono [of x y] by linarith
  moreover have "round_half_even x \<le> \<lfloor>x\<rfloor> + 1" using round_half_even_cases [of x] by auto
  moreover have "\<lfloor>y\<rfloor> \<le> round_half_even y" using round_half_even_cases [of y] by auto
  ultimately show ?thesis by linarith
qed

lemma round_half_even_nearest:
  "\<bar>of_int (round_half_even x) - x\<bar> = 1 / 2 \<Longrightarrow> even (round_half_even x)"
proof -
  assume a: "\<bar>of_int (round_half_even x) - x\<bar> = 1 / 2"
  let ?f = "\<lfloor>x\<rfloor>"
  have fl: "of_int ?f \<le> x" "x < of_int ?f + 1" by linarith+
  have "x - of_int ?f = 1 / 2"
    using a round_half_even_cases [of x] fl by (elim disjE conjE) (simp, linarith)+
  then show ?thesis by (simp add: round_half_even_def Let_def)
qed

lemma round_half_even_unique:
  assumes "\<bar>of_int n - x\<bar> < 1 / 2"
  shows "round_half_even x = n"
proof -
  from assms round_half_even_error [of x]
  have "\<bar>real_of_int (round_half_even x) - of_int n\<bar> < 1" by linarith
  then have "\<bar>real_of_int (round_half_even x - n)\<bar> < 1" by simp
  then have "\<bar>round_half_even x - n\<bar> < 1" by linarith
  then show ?thesis by simp
qed

lemma round_half_even_minus: "round_half_even (- x) = - round_half_even x"
proof (cases "\<bar>of_int (round_half_even x) - x\<bar> < 1 / 2")
  case True
  then have "\<bar>of_int (- round_half_even x) - (- x)\<bar> < 1 / 2"
    unfolding of_int_minus by linarith
  then show ?thesis by (rule round_half_even_unique)
next
  case False
  with round_half_even_error [of x] have t: "\<bar>of_int (round_half_even x) - x\<bar> = 1 / 2" by simp
  then have ev: "even (round_half_even x)" by (rule round_half_even_nearest)
  have ev': "even (round_half_even (- x))"
  proof (rule round_half_even_nearest)
    have fl: "of_int \<lfloor>x\<rfloor> \<le> x" "x < of_int \<lfloor>x\<rfloor> + 1" by linarith+
    from t have frac: "x - of_int \<lfloor>x\<rfloor> = 1 / 2"
      using round_half_even_cases [of x] fl by (elim disjE conjE) (simp, linarith)+
    then have "- x = of_int (- \<lfloor>x\<rfloor> - 1) + 1 / 2" by simp
    then have "round_half_even (- x) = (if even (- \<lfloor>x\<rfloor> - 1) then - \<lfloor>x\<rfloor> - 1 else - \<lfloor>x\<rfloor> - 1 + 1)"
      using round_half_even_tie [of "- \<lfloor>x\<rfloor> - 1"] by simp
    with frac show "\<bar>of_int (round_half_even (- x)) - (- x)\<bar> = 1 / 2"
      by (auto simp: abs_if)
  qed
  have "\<bar>real_of_int (round_half_even (- x)) + of_int (round_half_even x)\<bar> \<le> 1"
    using round_half_even_error [of x] round_half_even_error [of "- x"] by linarith
  then have "\<bar>real_of_int (round_half_even (- x) + round_half_even x)\<bar> \<le> 1" by simp
  then have le: "\<bar>round_half_even (- x) + round_half_even x\<bar> \<le> 1" by linarith
  from ev ev' have "even (round_half_even (- x) + round_half_even x)" by simp
  then obtain k where k: "round_half_even (- x) + round_half_even x = 2 * k" by (elim evenE)
  with le have "k = 0" by linarith
  with k show ?thesis by simp
qed

lemma round_half_even_nonneg: "0 \<le> x \<Longrightarrow> 0 \<le> round_half_even x"
  using round_half_even_mono [of 0 x] round_half_even_of_int [of 0] by simp

lemma round_half_even_sign: "0 \<le> round_half_even x \<longleftrightarrow> - 1 / 2 \<le> x"
proof
  assume "- 1 / 2 \<le> x"
  then have "round_half_even (- 1 / 2) \<le> round_half_even x" by (rule round_half_even_mono)
  moreover have "round_half_even (- 1 / 2) = 0"
    using round_half_even_tie [of "- 1"] by simp
  ultimately show "0 \<le> round_half_even x" by simp
next
  assume a: "0 \<le> round_half_even x"
  then have "(0::real) \<le> of_int (round_half_even x)" by simp
  with round_half_even_error [of x] show "- 1 / 2 \<le> x" by linarith
qed


section \<open>Rounding to 53 bits\<close>

lemma round_half_even_numeral [simp]:
  "round_half_even (numeral n) = numeral n"
  "round_half_even (- numeral n) = - numeral n"
  "round_half_even 0 = 0" "round_half_even 1 = 1"
  using round_half_even_of_int [of "numeral n"] round_half_even_of_int [of "- numeral n"]
    round_half_even_of_int [of 0] round_half_even_of_int [of 1]
  by simp_all

lemma ulp_pos [simp]: "0 < ulp x"
  by (simp add: ulp_def)

lemma ulp_minus [simp]: "ulp (- x) = ulp x"
  by (simp add: ulp_def)

lemma rnd_zero [simp]: "rnd 0 = 0"
  using round_half_even_of_int [of 0] by (simp add: rnd_def)

lemma rnd_minus: "rnd (- x) = - rnd x"
  by (simp add: rnd_def round_half_even_minus)

lemma rnd_eval:
  assumes "2 powi k \<le> \<bar>x\<bar>" and "\<bar>x\<bar> < 2 powi (k + 1)" and "- 1022 \<le> k"
  shows "rnd x = of_int (round_half_even (x / 2 powi (k - 52))) * 2 powi (k - 52)"
  by (simp add: rnd_def ulp_def expo_eqI [OF assms])

lemma rnd_eval_subnormal:
  assumes "\<bar>x\<bar> < 2 powi (- 1022)"
  shows "rnd x = of_int (round_half_even (x / 2 powi (- 1074))) * 2 powi (- 1074)"
  by (simp add: rnd_def ulp_def expo_subnormal [OF assms])

lemma pow2_split:
  assumes "j \<le> (e::int)"
  shows "(2::real) powi e = of_int (2 ^ nat (e - j)) * 2 powi j"
proof -
  have "(2::real) powi e = 2 powi (e - j) * 2 powi j"
    using power_int_add [of "2::real" "e - j" j] by simp
  moreover have "(2::real) powi (e - j) = of_int (2 ^ nat (e - j))"
    using assms by (simp add: power_int_def)
  ultimately show ?thesis by simp
qed

lemma abs_lt_ulp_scale: "\<bar>x\<bar> < 2 ^ 53 * ulp x"
proof -
  have "expo x + 1 = 53 + (expo x - 52)" by simp
  then have "(2::real) powi (expo x + 1) = 2 powi (53 + (expo x - 52))" by (rule arg_cong)
  also have "\<dots> = 2 powi 53 * 2 powi (expo x - 52)" by (rule power_int_add) simp
  finally show ?thesis using expo_upper [of x] by (simp add: ulp_def)
qed

lemma abs_ge_ulp_scale:
  assumes "- 1022 < expo x"
  shows "2 ^ 52 * ulp x \<le> \<bar>x\<bar>"
proof -
  have "expo x = 52 + (expo x - 52)" by simp
  then have "(2::real) powi (expo x) = 2 powi (52 + (expo x - 52))" by (rule arg_cong)
  also have "\<dots> = 2 powi 52 * 2 powi (expo x - 52)" by (rule power_int_add) simp
  finally show ?thesis using expo_lower [OF assms] by (simp add: ulp_def)
qed

lemma mantissa_le: "\<bar>round_half_even (x / ulp x)\<bar> \<le> 2 ^ 53"
proof -
  from abs_lt_ulp_scale [of x] have "- (2 ^ 53 * ulp x) < x" "x < 2 ^ 53 * ulp x"
    by (simp_all add: abs_less_iff)
  then have "- (2 ^ 53) \<le> x / ulp x" "x / ulp x \<le> 2 ^ 53"
    by (simp_all add: pos_le_divide_eq pos_divide_le_eq)
  then have "round_half_even (of_int (- (2 ^ 53))) \<le> round_half_even (x / ulp x)"
    "round_half_even (x / ulp x) \<le> round_half_even (of_int (2 ^ 53))"
    by (intro round_half_even_mono; simp)+
  then show ?thesis by simp
qed

lemma mantissa_ge:
  assumes "- 1022 < expo x"
  shows "2 ^ 52 \<le> \<bar>round_half_even (x / ulp x)\<bar>"
proof -
  have a: "2 ^ 52 \<le> \<bar>x\<bar> / ulp x"
    using abs_ge_ulp_scale [OF assms] by (simp add: field_simps)
  show ?thesis
  proof (cases "0 \<le> x")
    case True
    with a have "of_int (2 ^ 52) \<le> x / ulp x" by simp
    then have "round_half_even (of_int (2 ^ 52)) \<le> round_half_even (x / ulp x)"
      by (rule round_half_even_mono)
    then show ?thesis by simp
  next
    case False
    with a have "x / ulp x \<le> of_int (- (2 ^ 52))" by simp
    then have "round_half_even (x / ulp x) \<le> round_half_even (of_int (- (2 ^ 52)))"
      by (rule round_half_even_mono)
    then show ?thesis by simp
  qed
qed

lemma rnd_fixed:
  assumes "representable x"
  shows "rnd x = x"
proof -
  from assms obtain m e :: int where x: "x = of_int m * 2 powi e"
    and m: "\<bar>m\<bar> < 2 ^ 53" and e: "- 1074 \<le> e" "e \<le> 971"
    by (auto simp: representable_def)
  have le: "expo x - 52 \<le> e"
  proof (cases "- 1022 < expo x")
    case True
    from m have "\<bar>real_of_int m\<bar> < 2 ^ 53"
      using of_int_less_iff [of "\<bar>m\<bar>" "2 ^ 53", where ?'a = real] by simp
    then have "\<bar>x\<bar> < 2 powi 53 * 2 powi e"
      by (simp add: x abs_mult mult_strict_right_mono)
    also have "(2::real) powi 53 * 2 powi e = 2 powi (53 + e)"
      using power_int_add [of "2::real" 53 e] by simp
    finally have "(2::real) powi expo x < 2 powi (53 + e)"
      using expo_lower [OF True] by linarith
    then have "expo x < 53 + e" by (rule pow2_less_exp)
    then show ?thesis by simp
  next
    case False
    with expo_ge [of x] have "expo x = - 1022" by simp
    with e show ?thesis by simp
  qed
  let ?j = "expo x - 52"
  have "x = of_int (m * 2 ^ nat (e - ?j)) * ulp x"
    unfolding ulp_def using pow2_split [OF le] by (simp add: x)
  moreover from this have "x / ulp x = of_int (m * 2 ^ nat (e - ?j))"
    using ulp_pos [of x] by (metis less_irrefl nonzero_mult_div_cancel_right)
  ultimately show ?thesis
    by (simp only: rnd_def round_half_even_of_int)
qed

lemma representable_bound:
  assumes "representable x"
  shows "\<bar>x\<bar> < 2 ^ 1024"
proof -
  from assms obtain m e :: int where x: "x = of_int m * 2 powi e"
    and m: "\<bar>m\<bar> < 2 ^ 53" and e: "- 1074 \<le> e" "e \<le> 971"
    by (auto simp: representable_def)
  from m have "\<bar>real_of_int m\<bar> < 2 ^ 53"
      using of_int_less_iff [of "\<bar>m\<bar>" "2 ^ 53", where ?'a = real] by simp
  then have "\<bar>x\<bar> < 2 powi 53 * 2 powi e"
    by (simp add: x abs_mult mult_strict_right_mono)
  also have "(2::real) powi 53 * 2 powi e = 2 powi (53 + e)"
    using power_int_add [of "2::real" 53 e] by simp
  also have "\<dots> \<le> 2 powi 1024"
    using e by (intro power_int_increasing) simp_all
  finally show ?thesis by simp
qed


lemma ulp_nonneg [simp]: "0 \<le> ulp x" "\<bar>ulp x\<bar> = ulp x" "ulp x \<noteq> 0"
  using ulp_pos [of x] by linarith+

lemma pow2_53: "(2::real) powi (k + 1) = 2 ^ 53 * 2 powi (k - 52)"
proof -
  have "k + 1 = 53 + (k - 52)" by simp
  then have "(2::real) powi (k + 1) = 2 powi (53 + (k - 52))" by (rule arg_cong)
  also have "\<dots> = 2 powi 53 * 2 powi (k - 52)" by (rule power_int_add) simp
  finally show ?thesis by simp
qed

lemma pow2_52: "(2::real) powi k = 2 ^ 52 * 2 powi (k - 52)"
proof -
  have "k = 52 + (k - 52)" by simp
  then have "(2::real) powi k = 2 powi (52 + (k - 52))" by (rule arg_cong)
  also have "\<dots> = 2 powi 52 * 2 powi (k - 52)" by (rule power_int_add) simp
  finally show ?thesis by simp
qed

lemma abs_rnd: "\<bar>rnd x\<bar> = of_int \<bar>round_half_even (x / ulp x)\<bar> * ulp x"
  by (simp add: rnd_def abs_mult)

lemma rnd_upper: "\<bar>rnd x\<bar> \<le> 2 powi (expo x + 1)"
proof -
  have "real_of_int \<bar>round_half_even (x / ulp x)\<bar> \<le> 2 ^ 53"
    using mantissa_le [of x] of_int_le_iff [of "\<bar>round_half_even (x / ulp x)\<bar>" "2 ^ 53", where ?'a = real]
    by simp
  then have "\<bar>rnd x\<bar> \<le> 2 ^ 53 * ulp x"
    unfolding abs_rnd by (intro mult_right_mono) simp_all
  then show ?thesis by (simp only: pow2_53 [of "expo x"] ulp_def)
qed

lemma rnd_lower:
  assumes "- 1022 < expo x"
  shows "2 powi expo x \<le> \<bar>rnd x\<bar>"
proof -
  have "(2::real) ^ 52 \<le> real_of_int \<bar>round_half_even (x / ulp x)\<bar>"
    using mantissa_ge [OF assms]
      of_int_le_iff [of "2 ^ 52" "\<bar>round_half_even (x / ulp x)\<bar>", where ?'a = real]
    by simp
  then have "2 ^ 52 * ulp x \<le> \<bar>rnd x\<bar>"
    unfolding abs_rnd by (intro mult_right_mono) simp_all
  then show ?thesis by (simp only: pow2_52 [of "expo x"] ulp_def)
qed

lemma rnd_nonneg: "0 \<le> x \<Longrightarrow> 0 \<le> rnd x"
  by (simp add: rnd_def round_half_even_nonneg)

lemma rnd_nonpos: "x \<le> 0 \<Longrightarrow> rnd x \<le> 0"
  using rnd_nonneg [of "- x"] by (simp add: rnd_minus)

lemma rnd_mono_pos:
  assumes "0 \<le> x" and "x \<le> y"
  shows "rnd x \<le> rnd y"
proof (cases "expo x = expo y")
  case True
  then have u: "ulp x = ulp y" by (simp add: ulp_def)
  from assms(2) have "x / ulp y \<le> y / ulp y" by (simp add: divide_right_mono)
  then have "round_half_even (x / ulp y) \<le> round_half_even (y / ulp y)"
    by (rule round_half_even_mono)
  then have "real_of_int (round_half_even (x / ulp y)) \<le> real_of_int (round_half_even (y / ulp y))"
    by simp
  then show ?thesis
    unfolding rnd_def u by (intro mult_right_mono) simp_all
next
  case False
  from assms have "\<bar>x\<bar> \<le> \<bar>y\<bar>" by simp
  from expo_mono [OF this] False have lt: "expo x < expo y" by simp
  with expo_ge [of x] have "- 1022 < expo y" by simp
  from rnd_lower [OF this] rnd_nonneg [of y] assms have "2 powi expo y \<le> rnd y" by simp
  moreover have "rnd x \<le> 2 powi (expo x + 1)" using rnd_upper [of x] by simp
  moreover have "(2::real) powi (expo x + 1) \<le> 2 powi expo y"
    using lt by (intro power_int_increasing) simp_all
  ultimately show ?thesis by linarith
qed

lemma rnd_mono:
  assumes "x \<le> y"
  shows "rnd x \<le> rnd y"
proof -
  consider "0 \<le> x" | "x < 0" "0 \<le> y" | "y < 0" by linarith
  then show ?thesis
  proof cases
    case 1
    then show ?thesis using assms by (rule rnd_mono_pos)
  next
    case 2
    then have "rnd x \<le> 0" "0 \<le> rnd y" by (simp_all add: rnd_nonpos rnd_nonneg)
    then show ?thesis by simp
  next
    case 3
    with assms have "0 \<le> - y" "- y \<le> - x" by simp_all
    from rnd_mono_pos [OF this] show ?thesis by (simp add: rnd_minus)
  qed
qed

lemma rnd_representable:
  assumes "\<bar>rnd x\<bar> < 2 ^ 1024"
  shows "representable (rnd x)"
proof -
  let ?M = "round_half_even (x / ulp x)"
  let ?k = "expo x"
  have k: "?k \<le> 1023"
  proof (rule ccontr)
    assume "\<not> ?k \<le> 1023"
    then have big: "1024 \<le> ?k" by simp
    then have "- 1022 < ?k" by simp
    from rnd_lower [OF this] have "2 powi ?k \<le> \<bar>rnd x\<bar>" .
    moreover have "(2::real) powi 1024 \<le> 2 powi ?k"
      using big by (intro power_int_increasing) simp_all
    ultimately show False using assms by simp
  qed
  show ?thesis
  proof (cases "\<bar>?M\<bar> < 2 ^ 53")
    case True
    have "rnd x = of_int ?M * 2 powi (?k - 52)" by (simp add: rnd_def ulp_def)
    moreover have "- 1074 \<le> ?k - 52" using expo_ge [of x] by simp
    moreover have "?k - 52 \<le> 971" using k by simp
    ultimately show ?thesis using True unfolding representable_def by blast
  next
    case False
    with mantissa_le [of x] have M: "\<bar>?M\<bar> = 2 ^ 53" by simp
    then have "\<bar>rnd x\<bar> = 2 ^ 53 * ulp x" by (simp add: abs_rnd)
    then have a: "\<bar>rnd x\<bar> = 2 powi (?k + 1)" by (simp only: pow2_53 [of ?k] ulp_def)
    with assms have "(2::real) powi (?k + 1) < 2 powi 1024" by simp
    then have k': "?k + 1 < 1024" by (rule pow2_less_exp)
    have sp: "(2::real) powi (?k + 1) = of_int (2 ^ 52) * 2 powi (?k - 51)"
      using pow2_split [of "?k - 51" "?k + 1"] by simp
    have "rnd x = of_int (if 0 \<le> rnd x then 2 ^ 52 else - (2 ^ 52)) * 2 powi (?k - 51)"
      using a sp by (simp add: abs_if split: if_splits)
    moreover have "\<bar>(if 0 \<le> rnd x then 2 ^ 52 else - (2 ^ 52)) :: int\<bar> < 2 ^ 53" by simp
    moreover have "- 1074 \<le> ?k - 51" using expo_ge [of x] by simp
    moreover have "?k - 51 \<le> 971" using k' by simp
    ultimately show ?thesis unfolding representable_def by blast
  qed
qed

lemma rnd_idem: "\<bar>rnd x\<bar> < 2 ^ 1024 \<Longrightarrow> rnd (rnd x) = rnd x"
  by (rule rnd_fixed [OF rnd_representable])


section \<open>The operations on finite values\<close>

lemma fl_cases:
  "fl neg x = PInf \<or> fl neg x = NInf \<or> fl neg x = NegZero \<and> rnd x = 0 \<or>
   fl neg x = Finite (rnd x) \<and> \<bar>rnd x\<bar> < 2 ^ 1024"
  by (auto simp add: fl_def Let_def)

lemma fl_not_NaN [simp]: "fl neg x \<noteq> NaN"
  by (simp add: fl_def Let_def)

lemma valof_fl: "is_finite (fl neg x) \<Longrightarrow> valof (fl neg x) = rnd x"
  using fl_cases [of neg x] by auto

lemma fl_finite_iff: "is_finite (fl neg x) \<longleftrightarrow> \<bar>rnd x\<bar> < 2 ^ 1024"
  by (auto simp add: fl_def Let_def)

lemma fl_representable: "fl neg x = Finite v \<Longrightarrow> representable v"
proof -
  assume a: "fl neg x = Finite v"
  with fl_cases [of neg x] have "v = rnd x \<and> \<bar>rnd x\<bar> < 2 ^ 1024 \<or> v = 0"
    by (auto simp add: fl_def Let_def split: if_splits)
  then show ?thesis
  proof
    assume "v = rnd x \<and> \<bar>rnd x\<bar> < 2 ^ 1024"
    then show ?thesis using rnd_representable [of x] by simp
  next
    assume "v = 0"
    then have "v = of_int 0 * 2 powi 0" by simp
    then show ?thesis unfolding representable_def by (intro exI [of _ 0]) simp
  qed
qed

lemma fl_fixed:
  assumes "representable x"
  shows "fl neg x = (if x = 0 then signed_zero neg else Finite x)"
  using representable_bound [OF assms] rnd_fixed [OF assms]
  by (simp add: fl_def signed_zero_def)

lemma fmul_commute: "fmul a b = fmul b a"
proof -
  have "(is_neg a \<noteq> is_neg b) = (is_neg b \<noteq> is_neg a)" by auto
  then show ?thesis by (auto simp add: fmul_def mult.commute)
qed

lemma fmul_finite:
  assumes "is_finite (fmul a b)"
  shows "is_finite a" and "is_finite b" and "valof (fmul a b) = rnd (valof a * valof b)"
proof -
  from assms have f: "is_finite a \<and> is_finite b"
    by (auto simp add: fmul_def signed_inf_def split: if_splits)
  then show "is_finite a" and "is_finite b" by simp_all
  from f have "a \<noteq> NaN" "b \<noteq> NaN" by auto
  with f have e: "fmul a b = fl (is_neg a \<noteq> is_neg b) (valof a * valof b)"
    by (simp add: fmul_def)
  with assms show "valof (fmul a b) = rnd (valof a * valof b)" by (simp add: valof_fl)
qed

lemma fadd_finite:
  assumes "is_finite (fadd a b)"
  shows "is_finite a" and "is_finite b" and "valof (fadd a b) = rnd (valof a + valof b)"
proof -
  from assms have f: "is_finite a \<and> is_finite b"
    by (auto simp add: fadd_def split: if_splits)
  then show "is_finite a" and "is_finite b" by simp_all
  from f have "a \<noteq> NaN" "b \<noteq> NaN" by auto
  with f have e: "fadd a b = fl (a = NegZero \<and> b = NegZero) (valof a + valof b)"
    by (simp add: fadd_def)
  with assms show "valof (fadd a b) = rnd (valof a + valof b)" by (simp add: valof_fl)
qed

lemma fdiv_finite:
  assumes "is_finite (fdiv a b)"
  shows "is_finite a"
    and "valof b \<noteq> 0 \<Longrightarrow> valof (fdiv a b) = rnd (valof a / valof b)"
proof -
  from assms show f: "is_finite a"
    by (auto simp add: fdiv_def signed_inf_def split: if_splits)
  assume nz: "valof b \<noteq> 0"
  then have b: "is_finite b" "\<not> is_zero b" "b \<noteq> NaN" by (cases b; simp)+
  from f have "a \<noteq> NaN" by auto
  with f b have "fdiv a b = fl (is_neg a \<noteq> is_neg b) (valof a / valof b)"
    by (simp add: fdiv_def)
  with assms show "valof (fdiv a b) = rnd (valof a / valof b)" by (simp add: valof_fl)
qed

lemma fadd_representable: "fadd a b = Finite v \<Longrightarrow> representable v"
proof -
  assume a: "fadd a b = Finite v"
  then have "is_finite (fadd a b)" by simp
  from fadd_finite(1,2) [OF this] have f: "is_finite a" "is_finite b" .
  then have "a \<noteq> NaN" "b \<noteq> NaN" by auto
  with f have "fadd a b = fl (a = NegZero \<and> b = NegZero) (valof a + valof b)"
    by (simp add: fadd_def)
  with a show ?thesis by (auto intro: fl_representable)
qed

lemma fadd_zero_right:
  assumes "is_float64 a"
  shows "fadd a (Finite 0) = (if a = NegZero then Finite 0 else a)"
proof (cases a)
  case (Finite r)
  with assms have "representable r" by simp
  from fl_fixed [OF this, of False] Finite show ?thesis
    by (simp add: fadd_def signed_zero_def)
qed (simp_all add: fadd_def fl_def)

lemma fadd_zero_zero [simp]: "fadd (Finite 0) (Finite 0) = Finite 0"
  by (simp add: fadd_def fl_def)


section \<open>Rounding and conversion to an integer\<close>

lemma trunc_zero_of_int [simp]: "trunc_zero (of_int n) = n"
  by (simp add: trunc_zero_def)

lemma nearest_even_round: "nearest_even x (round_half_even x)"
  using round_half_even_error [of x] round_half_even_nearest [of x]
  by (simp add: nearest_even_def)

lemma nearest_even_unique:
  assumes "nearest_even x a"
  shows "a = round_half_even x"
proof (cases "\<bar>of_int a - x\<bar> < 1 / 2")
  case True
  then show ?thesis by (rule round_half_even_unique [symmetric])
next
  case False
  with assms have t: "\<bar>of_int a - x\<bar> = 1 / 2" and ev: "even a"
    by (simp_all add: nearest_even_def)
  show ?thesis
  proof (cases "\<bar>of_int (round_half_even x) - x\<bar> < 1 / 2")
    case True
    with t have "\<bar>real_of_int a - of_int (round_half_even x)\<bar> < 1" by linarith
    then have "\<bar>real_of_int (a - round_half_even x)\<bar> < 1" by simp
    then have "\<bar>a - round_half_even x\<bar> < 1" by linarith
    then show ?thesis by simp
  next
    case False
    with round_half_even_error [of x] have t': "\<bar>of_int (round_half_even x) - x\<bar> = 1 / 2"
      by simp
    then have ev': "even (round_half_even x)" by (rule round_half_even_nearest)
    from t t' have "\<bar>real_of_int a - of_int (round_half_even x)\<bar> \<le> 1" by linarith
    then have "\<bar>real_of_int (a - round_half_even x)\<bar> \<le> 1" by simp
    then have le: "\<bar>a - round_half_even x\<bar> \<le> 1" by linarith
    from ev ev' have "even (a - round_half_even x)" by simp
    then obtain k where k: "a - round_half_even x = 2 * k" by (elim evenE)
    with le have "k = 0" by linarith
    with k show ?thesis by simp
  qed
qed

lemma round_in_int64:
  "- (2 ^ 63) \<le> round_half_even x \<and> round_half_even x < 2 ^ 63 \<longleftrightarrow>
   - (2 ^ 63) - 1 / 2 \<le> x \<and> x < 2 ^ 63 - 1 / 2"
proof -
  have lo: "- (2 ^ 63) \<le> round_half_even x \<longleftrightarrow> - (2 ^ 63) - 1 / 2 \<le> x"
  proof
    assume "- (2 ^ 63) - 1 / 2 \<le> x"
    then have "round_half_even (of_int (- (2 ^ 63) - 1) + 1 / 2) \<le> round_half_even x"
      by (intro round_half_even_mono) simp
    then show "- (2 ^ 63) \<le> round_half_even x"
      by (simp only: round_half_even_tie) simp
  next
    assume "- (2 ^ 63) \<le> round_half_even x"
    then have "real_of_int (- (2 ^ 63)) \<le> real_of_int (round_half_even x)"
      by (rule of_int_le_iff [THEN iffD2])
    moreover have "real_of_int (round_half_even x) \<le> x + 1 / 2"
      using round_half_even_error [of x] by linarith
    ultimately show "- (2 ^ 63) - 1 / 2 \<le> x" by simp
  qed
  have hi: "round_half_even x < 2 ^ 63 \<longleftrightarrow> x < 2 ^ 63 - 1 / 2"
  proof
    assume a: "round_half_even x < 2 ^ 63"
    show "x < 2 ^ 63 - 1 / 2"
    proof (rule ccontr)
      assume "\<not> x < 2 ^ 63 - 1 / 2"
      then have "of_int (2 ^ 63 - 1) + 1 / 2 \<le> x" by simp
      then have "round_half_even (of_int (2 ^ 63 - 1) + 1 / 2) \<le> round_half_even x"
        by (rule round_half_even_mono)
      then have "2 ^ 63 \<le> round_half_even x"
        by (simp only: round_half_even_tie) simp
      with a show False by simp
    qed
  next
    assume "x < 2 ^ 63 - 1 / 2"
    moreover have "real_of_int (round_half_even x) \<le> x + 1 / 2"
      using round_half_even_error [of x] by linarith
    ultimately have "real_of_int (round_half_even x) < real_of_int (2 ^ 63)" by simp
    then show "round_half_even x < 2 ^ 63" by (rule of_int_less_iff [THEN iffD1])
  qed
  from lo hi show ?thesis by simp
qed

lemma astype_int_round:
  "astype_int (np_round t) =
     (if rounds_to_int64 t then round_half_even (valof t) else - (2 ^ 63))"
proof (cases t)
  case (Finite r)
  then show ?thesis
    using round_in_int64 [of r] by (auto simp add: rounds_to_int64_def)
qed (simp_all add: rounds_to_int64_def)

lemma rounded_int64_astype: "rounded_int64 t (astype_int (np_round t))"
  by (simp add: astype_int_round rounded_int64_def nearest_even_round)

lemma rounded_int64_unique:
  "rounded_int64 t a \<Longrightarrow> a = astype_int (np_round t)"
  by (auto simp add: astype_int_round rounded_int64_def dest: nearest_even_unique)

lemma astype_int_range: "- (2 ^ 63) \<le> astype_int (np_round t) \<and> astype_int (np_round t) < 2 ^ 63"
  using round_in_int64 [of "valof t"]
  by (simp add: astype_int_round rounds_to_int64_def)

declare np_round.simps [simp del] astype_int.simps [simp del]


section \<open>Indexing, broadcasting and summation\<close>

lemma np_getitem_nat: "n < length xs \<Longrightarrow> np_getitem xs (int n) = Inr (xs ! n)"
  by (simp add: np_getitem_def py_index_def)

lemma np_getitem_6: "6 < length xs \<Longrightarrow> np_getitem xs 6 = Inr (xs ! 6)"
  using np_getitem_nat [of 6 xs] by simp

lemma np_getitem_7: "7 < length xs \<Longrightarrow> np_getitem xs 7 = Inr (xs ! 7)"
  using np_getitem_nat [of 7 xs] by simp

lemma np_getitem_nonneg:
  assumes "np_getitem xs i = Inr x" and "0 \<le> i"
  shows "x = xs ! nat i" and "nat i < length xs"
  using assms by (auto simp add: np_getitem_def py_index_def Let_def split: if_splits)

lemma np_mul_same: "length xs = length ys \<Longrightarrow> np_mul xs ys = Inr (map2 fmul xs ys)"
  by (simp add: np_mul_def)

lemma np_take_nat:
  "\<forall>j \<in> set js. j < length xs \<Longrightarrow> np_take xs (map int js) = Inr (map (\<lambda>j. xs ! j) js)"
  by (induction js) (simp_all add: np_getitem_nat)

lemma excluded_popids_nat: "excluded_popids = map int [0 ..< 6]"
  by (simp add: excluded_popids_def upt_rec)

lemma np_take_entries:
  "np_take (map f [0 ..< 8]) excluded_popids = Inr (map f [0 ..< 6])"
proof -
  have "np_take (map f [0 ..< 8]) (map int [0 ..< 6]) =
          Inr (map (\<lambda>j. map f [0 ..< 8] ! j) [0 ..< 6])"
    by (rule np_take_nat) simp
  also have "map (\<lambda>j. map f [0 ..< 8] ! j) [0 ..< 6] = map f [0 ..< 6]"
    by (rule map_cong) simp_all
  finally show ?thesis by (simp only: excluded_popids_nat)
qed

section \<open>The two cells on input of the full model's shape\<close>

lemma rec_input_shaped:
  assumes "well_shaped nd tau_syn rates_meso" and "i = 6 \<or> i = 7"
  shows "rec_input nd p tau_syn rates_meso (int i) =
           Inr (map (contribution nd p tau_syn rates_meso i) [0 ..< 8])"
proof -
  from assms have len: "i < length (weight_matrix_mean nd)" "i < length (indegrees nd)"
    "length (weight_matrix_mean nd ! i) = 9" "length (indegrees nd ! i) = 9"
    "length tau_syn = 8" "length rates_meso = 8"
    by (auto simp: well_shaped_def)
  have "rec_input nd p tau_syn rates_meso (int i) =
     Inr (map2 fmul (map2 fmul (map (\<lambda>r. fdiv r (bg_rate nd)) rates_meso)
        (map (\<lambda>x. fdiv x (fmul (weight_ext nd) (tau_syn_ex p)))
           (map2 fmul (butlast (weight_matrix_mean nd ! i)) tau_syn)))
        (butlast (indegrees nd ! i)))"
    using len by (simp add: rec_input_def np_getitem_nat np_mul_same Let_def)
  also have "\<dots> = Inr (map (contribution nd p tau_syn rates_meso i) [0 ..< 8])"
    using len
    by (auto intro!: nth_equalityI
        simp: contribution_def nth_butlast
          fmul_commute [of "fdiv (rates_meso ! _) (bg_rate nd)"])
  finally show ?thesis .
qed

lemma modifications_shaped:
  assumes "well_shaped nd tau_syn rates_meso"
  shows "indegree_modifications nd p tau_syn rates_meso =
           Inr [fadd (Finite 0) (compensation_sum nd p tau_syn rates_meso 6),
                fadd (Finite 0) (compensation_sum nd p tau_syn rates_meso 7)]"
proof -
  have r6: "rec_input nd p tau_syn rates_meso 6 =
              Inr (map (contribution nd p tau_syn rates_meso 6) [0 ..< 8])"
    using rec_input_shaped [OF assms, of 6 p] by simp
  have r7: "rec_input nd p tau_syn rates_meso 7 =
              Inr (map (contribution nd p tau_syn rates_meso 7) [0 ..< 8])"
    using rec_input_shaped [OF assms, of 7 p] by simp
  have en: "enumerate 0 [6::int, 7] = [(0, 6), (1, 7)]" by simp
  show ?thesis
    by (simp add: indegree_modifications_def indegree_modifications_of_def included_popids_def
        en r6 r7 np_take_entries np_sum_def compensation_sum_def del: upt_Suc enumerate_simps)
qed

lemma K_ext_total_shaped:
  assumes "7 < length (ext_indegrees nd)"
  shows "K_ext_total nd [m6, m7] 6 0 = Inr (fadd (ext_indegrees nd ! 6) m6)"
    and "K_ext_total nd [m6, m7] 7 1 = Inr (fadd (ext_indegrees nd ! 7) m7)"
  using assms
  by (simp_all add: K_ext_total_def np_getitem_6 np_getitem_7 np_getitem_def py_index_def)

text \<open>The two sums that are rounded, on input of the full model's shape.\<close>

lemma adjusted_shaped:
  assumes "well_shaped nd tau_syn rates_meso" and "7 < length (ext_indegrees nd)"
  shows "adjusted_ext_indegrees nd p tau_syn rates_meso =
           Inr (astype_int (np_round (fadd (ext_indegrees nd ! 6)
                  (fadd (Finite 0) (compensation_sum nd p tau_syn rates_meso 6)))),
                astype_int (np_round (fadd (ext_indegrees nd ! 7)
                  (fadd (Finite 0) (compensation_sum nd p tau_syn rates_meso 7)))))"
proof -
  have m: "indegree_modifications_of nd p tau_syn rates_meso included_popids excluded_popids =
             Inr [fadd (Finite 0) (compensation_sum nd p tau_syn rates_meso 6),
                  fadd (Finite 0) (compensation_sum nd p tau_syn rates_meso 7)]"
    using modifications_shaped [OF assms(1), of p] by (simp only: indegree_modifications_def)
  show ?thesis
    by (simp add: adjusted_ext_indegrees_def adjusted_ext_indegrees_of_def m K_ext_L6E_def
        K_ext_L6I_def K_ext_def K_ext_total_shaped [OF assms(2)])
qed


section \<open>Evaluating the arithmetic on concrete values\<close>

lemma representable_of_int: "\<bar>n\<bar> < 2 ^ 53 \<Longrightarrow> representable (of_int n)"
  unfolding representable_def by (intro exI [of _ n] exI [of _ 0]) simp

lemma representable_half: "\<bar>n\<bar> < 2 ^ 53 \<Longrightarrow> representable (of_int n / 2)"
  unfolding representable_def by (intro exI [of _ n] exI [of _ "- 1"]) (simp add: power_int_minus_divide)

lemma representable_scaled:
  "\<bar>n\<bar> < 2 ^ 53 \<Longrightarrow> e \<le> 971 \<Longrightarrow> representable (of_int n * 2 ^ e)"
  unfolding representable_def by (intro exI [of _ n] exI [of _ "int e"]) simp

lemma representable_numeral [simp]:
  "(numeral k :: int) < 2 ^ 53 \<Longrightarrow> representable (numeral k)"
  "(numeral k :: int) < 2 ^ 53 \<Longrightarrow> representable (- numeral k)"
  "(numeral k :: int) < 2 ^ 53 \<Longrightarrow> representable (numeral k / 2)"
  "representable 0" "representable 1"
  using representable_of_int [of "numeral k"] representable_of_int [of "- numeral k"]
    representable_half [of "numeral k"] representable_of_int [of 0] representable_of_int [of 1]
  by simp_all

lemma fl_numeral [simp]:
  "representable (numeral k) \<Longrightarrow> fl neg (numeral k) = Finite (numeral k)"
  "representable (- numeral k) \<Longrightarrow> fl neg (- numeral k) = Finite (- numeral k)"
  "representable (numeral k / numeral l) \<Longrightarrow> fl neg (numeral k / numeral l) = Finite (numeral k / numeral l)"
  "fl neg 0 = signed_zero neg" "fl neg 1 = Finite 1"
  using fl_fixed [of "numeral k" neg] fl_fixed [of "- numeral k" neg]
    fl_fixed [of "numeral k / numeral l" neg] fl_fixed [of 0 neg] fl_fixed [of 1 neg]
  by simp_all

lemmas float_eval = fmul_def fadd_def fdiv_def signed_zero_def signed_inf_def


lemma tau_syn_array_meso:
  "tau_syn_array meso_neuron_params = map Finite [2, 8, 2, 8, 2, 8, 2, 8]"
  by (simp add: tau_syn_array_def meso_neuron_params_def upt_rec)

lemma meso_tau_syn_ex: "tau_syn_ex meso_neuron_params = Finite 2"
  by (simp add: meso_neuron_params_def)

lemma less_6_cases: "j < (6::nat) \<Longrightarrow> j = 0 \<or> j = 1 \<or> j = 2 \<or> j = 3 \<or> j = 4 \<or> j = 5"
  by arith

lemma upt_6: "[0 ..< 6] = [0, 1, 2, 3, 4, 5::nat]"
  by (simp add: upt_rec)

lemma table_with_rows:
  "weight_matrix_mean (table_with wrow krow ext) ! 6 = map Finite wrow"
  "weight_matrix_mean (table_with wrow krow ext) ! 7 = map Finite wrow"
  "indegrees (table_with wrow krow ext) ! 6 = map Finite krow"
  "indegrees (table_with wrow krow ext) ! 7 = map Finite krow"
  "bg_rate (table_with wrow krow ext) = Finite 1"
  "weight_ext (table_with wrow krow ext) = Finite 1"
  "ext_indegrees (table_with wrow krow ext) = map Finite ext"
  "length (weight_matrix_mean (table_with wrow krow ext)) = 9"
  "length (indegrees (table_with wrow krow ext)) = 9"
  by (simp_all add: table_with_def)

lemma contribution_table:
  assumes "i = 6 \<or> i = 7"
  shows "contribution (table_with wrow krow ext) meso_neuron_params
           (tau_syn_array meso_neuron_params) rates i j =
         fmul (fmul (fdiv (fmul (map Finite wrow ! j) (map Finite [2, 8, 2, 8, 2, 8, 2, 8] ! j))
                          (Finite 2))
                    (fdiv (rates ! j) (Finite 1)))
              (map Finite krow ! j)"
proof -
  have "fmul (Finite 1) (Finite 2) = Finite 2" by (simp add: float_eval)
  with assms show ?thesis
    by (auto simp add: contribution_def table_with_rows tau_syn_array_meso meso_tau_syn_ex)
qed

lemma nd_exc_contribution:
  assumes "i = 6 \<or> i = 7"
  shows "map (contribution nd_exc meso_neuron_params (tau_syn_array meso_neuron_params) rates_two i)
           [0 ..< 6] = map Finite [2000, 0, 0, 0, 0, 0]"
  unfolding nd_exc_def upt_6
  by (simp add: contribution_table [OF assms] rates_two_def float_eval)

lemma nd_exc_sum:
  assumes "i = 6 \<or> i = 7"
  shows "compensation_sum nd_exc meso_neuron_params (tau_syn_array meso_neuron_params) rates_two i
           = Finite 2000"
  by (simp add: compensation_sum_def nd_exc_contribution [OF assms] float_eval)


section \<open>Dependence on the excluded populations only\<close>

lemma contribution_cong:
  assumes "bg_rate nd' = bg_rate nd" and "weight_ext nd' = weight_ext nd"
    and "tau_syn_ex p' = tau_syn_ex p"
    and "weight_matrix_mean nd' ! i ! j = weight_matrix_mean nd ! i ! j"
    and "indegrees nd' ! i ! j = indegrees nd ! i ! j"
    and "rates' ! j = rates ! j"
  shows "contribution nd' p' tau_syn rates' i j = contribution nd p tau_syn rates i j"
  using assms by (simp add: contribution_def)

lemma K_ext_cong:
  "ext_indegrees nd' = ext_indegrees nd \<Longrightarrow> K_ext nd' mods popid k = K_ext nd mods popid k"
  by (simp add: K_ext_def K_ext_total_def)

text \<open>
  C8. Two runs on inputs of the full model's shape that agree on the background rate,
  the external weight, the synaptic time constants, the original external in-degrees
  and, for the excluded sources \<open>j = 0, \<dots>, 5\<close>, on the mean weights and in-degrees onto
  L6E and L6I and on the reference rates, compute the same in-degree modifications and
  the same new external in-degrees. The rates of L6E and L6I, the columns 6, 7 and TC
  of the matrices and all other rows do not matter.
\<close>

theorem excluded_data_determine_result:
  assumes "well_shaped nd tau_syn rates" and "well_shaped nd' tau_syn rates'"
    and "bg_rate nd' = bg_rate nd" and "weight_ext nd' = weight_ext nd"
    and "tau_syn_ex p' = tau_syn_ex p" and "ext_indegrees nd' = ext_indegrees nd"
    and "\<forall>j < 6. weight_matrix_mean nd' ! 6 ! j = weight_matrix_mean nd ! 6 ! j \<and>
                 weight_matrix_mean nd' ! 7 ! j = weight_matrix_mean nd ! 7 ! j \<and>
                 indegrees nd' ! 6 ! j = indegrees nd ! 6 ! j \<and>
                 indegrees nd' ! 7 ! j = indegrees nd ! 7 ! j \<and>
                 rates' ! j = rates ! j"
  shows "indegree_modifications nd' p' tau_syn rates' = indegree_modifications nd p tau_syn rates \<and>
         adjusted_ext_indegrees nd' p' tau_syn rates' = adjusted_ext_indegrees nd p tau_syn rates"
proof -
  have e: "map (contribution nd' p' tau_syn rates' i) [0 ..< 6] =
           map (contribution nd p tau_syn rates i) [0 ..< 6]" if "i = 6 \<or> i = 7" for i
    using that assms(7) by (intro map_cong refl contribution_cong assms(3-5)) auto
  have e6: "compensation_sum nd' p' tau_syn rates' 6 = compensation_sum nd p tau_syn rates 6"
    unfolding compensation_sum_def by (rule arg_cong [OF e]) simp
  have e7: "compensation_sum nd' p' tau_syn rates' 7 = compensation_sum nd p tau_syn rates 7"
    unfolding compensation_sum_def by (rule arg_cong [OF e]) simp
  have m: "indegree_modifications nd' p' tau_syn rates' = indegree_modifications nd p tau_syn rates"
    by (simp only: modifications_shaped [OF assms(1)] modifications_shaped [OF assms(2)] e6 e7)
  then have "indegree_modifications_of nd' p' tau_syn rates' included_popids excluded_popids =
             indegree_modifications_of nd p tau_syn rates included_popids excluded_popids"
    by (simp only: indegree_modifications_def)
  then have "adjusted_ext_indegrees nd' p' tau_syn rates' = adjusted_ext_indegrees nd p tau_syn rates"
    by (simp only: adjusted_ext_indegrees_def adjusted_ext_indegrees_of_def K_ext_L6E_def
        K_ext_L6I_def K_ext_cong [OF assms(6)])
  with m show ?thesis by simp
qed

lemma shaped_table_with:
  assumes "length wrow = 9" and "length krow = 9" and "length tau = 8" and "length rates = 8"
  shows "well_shaped (table_with wrow krow ext) tau rates"
  using assms by (simp add: well_shaped_def table_with_def)

lemma nd_exc_shaped:
  "well_shaped nd_exc (tau_syn_array meso_neuron_params) rates_two"
  "well_shaped nd_exc_other (tau_syn_array meso_neuron_params) rates_other"
  "well_shaped nd_inh (tau_syn_array meso_neuron_params) rates_two"
  "well_shaped nd_five (tau_syn_array meso_neuron_params) rates_tenth"
  "well_shaped nd_exc (tau_syn_array meso_neuron_params) rates_huge"
  "well_shaped nd_exc (tau_syn_array meso_neuron_params) rates_meso_full"
  by (simp_all add: nd_exc_def nd_exc_other_def nd_inh_def nd_five_def shaped_table_with
      tau_syn_array_meso rates_two_def rates_other_def rates_tenth_def rates_huge_def
      rates_meso_full_def)

lemma nd_exc_ext:
  "length (ext_indegrees nd_exc) = 9"
  "ext_indegrees nd_exc ! 6 = Finite (5 / 2)" "ext_indegrees nd_exc ! 7 = Finite 35"
  by (simp_all add: nd_exc_def table_with_rows)

lemma round_five_halves [simp]: "round_half_even (4005 / 2) = 2002"
  "round_half_even (5 / 2) = 2"
  using round_half_even_tie [of 2002] round_half_even_tie [of 2] by simp_all

lemma nd_exc_modifications:
  "indegree_modifications nd_exc meso_neuron_params (tau_syn_array meso_neuron_params) rates_two =
     Inr [Finite 2000, Finite 2000]"
  by (simp add: modifications_shaped [OF nd_exc_shaped(1)] nd_exc_sum float_eval)

lemma nd_exc_adjusted:
  "adjusted_ext_indegrees nd_exc meso_neuron_params (tau_syn_array meso_neuron_params) rates_two =
     Inr (2002, 2035)"
  by (simp add: adjusted_shaped [OF nd_exc_shaped(1)] nd_exc_ext nd_exc_sum float_eval
      astype_int_round rounds_to_int64_def)

lemma nd_exc_other_agree:
  "\<forall>j < 6. weight_matrix_mean nd_exc_other ! 6 ! j = weight_matrix_mean nd_exc ! 6 ! j \<and>
            weight_matrix_mean nd_exc_other ! 7 ! j = weight_matrix_mean nd_exc ! 7 ! j \<and>
            indegrees nd_exc_other ! 6 ! j = indegrees nd_exc ! 6 ! j \<and>
            indegrees nd_exc_other ! 7 ! j = indegrees nd_exc ! 7 ! j \<and>
            rates_other ! j = rates_two ! j"
proof (intro allI impI)
  fix j :: nat
  assume "j < 6"
  from less_6_cases [OF this]
  show "weight_matrix_mean nd_exc_other ! 6 ! j = weight_matrix_mean nd_exc ! 6 ! j \<and>
        weight_matrix_mean nd_exc_other ! 7 ! j = weight_matrix_mean nd_exc ! 7 ! j \<and>
        indegrees nd_exc_other ! 6 ! j = indegrees nd_exc ! 6 ! j \<and>
        indegrees nd_exc_other ! 7 ! j = indegrees nd_exc ! 7 ! j \<and>
        rates_other ! j = rates_two ! j"
    by (elim disjE)
      (simp_all add: nd_exc_other_def nd_exc_def table_with_rows rates_other_def rates_two_def)
qed

theorem excluded_data_determine_result_witness:
  "well_shaped nd_exc (tau_syn_array meso_neuron_params) rates_two \<and>
   well_shaped nd_exc_other (tau_syn_array meso_neuron_params) rates_other \<and>
   bg_rate nd_exc_other = bg_rate nd_exc \<and> weight_ext nd_exc_other = weight_ext nd_exc \<and>
   ext_indegrees nd_exc_other = ext_indegrees nd_exc \<and>
   take 6 (weight_matrix_mean nd_exc_other ! 6) = take 6 (weight_matrix_mean nd_exc ! 6) \<and>
   take 6 (weight_matrix_mean nd_exc_other ! 7) = take 6 (weight_matrix_mean nd_exc ! 7) \<and>
   take 6 (indegrees nd_exc_other ! 6) = take 6 (indegrees nd_exc ! 6) \<and>
   take 6 (indegrees nd_exc_other ! 7) = take 6 (indegrees nd_exc ! 7) \<and>
   take 6 rates_other = take 6 rates_two \<and>
   rates_other ! 6 \<noteq> rates_two ! 6 \<and>
   weight_matrix_mean nd_exc_other ! 6 ! 8 \<noteq> weight_matrix_mean nd_exc ! 6 ! 8 \<and>
   indegree_modifications nd_exc_other meso_neuron_params (tau_syn_array meso_neuron_params)
     rates_other = Inr [Finite 2000, Finite 2000] \<and>
   adjusted_ext_indegrees nd_exc_other meso_neuron_params (tau_syn_array meso_neuron_params)
     rates_other = Inr (2002, 2035)"
proof -
  have d: "rates_other ! 6 \<noteq> rates_two ! 6"
    "weight_matrix_mean nd_exc_other ! 6 ! 8 \<noteq> weight_matrix_mean nd_exc ! 6 ! 8"
    by (simp_all add: rates_other_def rates_two_def nd_exc_other_def nd_exc_def table_with_rows)
  have t: "take 6 (weight_matrix_mean nd_exc_other ! 6) = take 6 (weight_matrix_mean nd_exc ! 6)"
    "take 6 (weight_matrix_mean nd_exc_other ! 7) = take 6 (weight_matrix_mean nd_exc ! 7)"
    "take 6 (indegrees nd_exc_other ! 6) = take 6 (indegrees nd_exc ! 6)"
    "take 6 (indegrees nd_exc_other ! 7) = take 6 (indegrees nd_exc ! 7)"
    "take 6 rates_other = take 6 rates_two"
    by (simp_all add: nd_exc_other_def nd_exc_def table_with_rows rates_other_def rates_two_def)
  have s: "bg_rate nd_exc_other = bg_rate nd_exc" "weight_ext nd_exc_other = weight_ext nd_exc"
    "ext_indegrees nd_exc_other = ext_indegrees nd_exc"
    by (simp_all add: nd_exc_other_def nd_exc_def table_with_rows)
  from excluded_data_determine_result [OF nd_exc_shaped(1,2) s(1,2) refl s(3) nd_exc_other_agree]
  show ?thesis
    using d t s nd_exc_shaped(1,2)
    by (simp only: nd_exc_modifications nd_exc_adjusted) simp
qed


section \<open>Failures of the compensation loop\<close>












section \<open>The table is only read\<close>

lemma cells_keep_table:
  "cell_num_neurons s = Inr s' \<Longrightarrow> net_dict s' = net_dict s"
  "cell_extent s = Inr s' \<Longrightarrow> net_dict s' = net_dict s"
  "cell_neuron_params s = Inr s' \<Longrightarrow> net_dict s' = net_dict s"
  "cell_indegrees s = Inr s' \<Longrightarrow> net_dict s' = net_dict s"
  "cell_beta s = Inr s' \<Longrightarrow> net_dict s' = net_dict s"
  "cell_mask_scaling s = Inr s' \<Longrightarrow> net_dict s' = net_dict s"
  "cell_weights s = Inr s' \<Longrightarrow> net_dict s' = net_dict s"
  "cell_delays s = Inr s' \<Longrightarrow> net_dict s' = net_dict s"
  "cell_bg_rate s = Inr s' \<Longrightarrow> net_dict s' = net_dict s"
  "cell_rates_meso s = Inr s' \<Longrightarrow> net_dict s' = net_dict s"
  "cell_tau_syn s = Inr s' \<Longrightarrow> net_dict s' = net_dict s"
  "cell_indegree_modifications s = Inr s' \<Longrightarrow> net_dict s' = net_dict s"
  "cell_K_ext s = Inr s' \<Longrightarrow> net_dict s' = net_dict s"
  by (auto simp add: cell_num_neurons_def cell_extent_def cell_neuron_params_def
      cell_indegrees_def cell_beta_def cell_mask_scaling_def cell_weights_def cell_delays_def
      cell_bg_rate_def cell_rates_meso_def cell_tau_syn_def cell_indegree_modifications_def
      cell_K_ext_def split: sum.splits)

lemma run_cells_keeps_table:
  assumes "\<forall>c \<in> set cs. \<forall>t t'. c t = Inr t' \<longrightarrow> net_dict t' = net_dict t"
    and "run_cells cs s = Inr s'"
  shows "net_dict s' = net_dict s"
  using assms
proof (induction cs arbitrary: s)
  case Nil
  then show ?case by simp
next
  case (Cons c cs)
  from Cons.prems(2) obtain t where t: "c s = Inr t" and r: "run_cells cs t = Inr s'"
    by (auto split: sum.splits)
  from Cons.prems(1) t have "net_dict t = net_dict s" by simp
  moreover from Cons.IH [OF _ r] Cons.prems(1) have "net_dict s' = net_dict t" by simp
  ultimately show ?case by simp
qed

lemma derived_quantity_cells_keep:
  "\<forall>c \<in> set derived_quantity_cells. \<forall>t t'. c t = Inr t' \<longrightarrow> net_dict t' = net_dict t"
  by (simp add: derived_quantity_cells_def cells_keep_table)

text \<open>
  C10. The cells that compute the derived quantities never change the loaded table:
  after all of them, and after any number \<open>k\<close> of them from the top, the table in the
  namespace is the one that was loaded.
\<close>

theorem table_never_mutated:
  assumes "run_cells (take k derived_quantity_cells) s = Inr s'"
  shows "net_dict s' = net_dict s"
proof (rule run_cells_keeps_table [OF _ assms])
  show "\<forall>c \<in> set (take k derived_quantity_cells).
          \<forall>t t'. c t = Inr t' \<longrightarrow> net_dict t' = net_dict t"
    using derived_quantity_cells_keep by (auto dest: in_set_takeD)
qed

lemma take_all_cells: "take 13 derived_quantity_cells = derived_quantity_cells"
  by (simp add: derived_quantity_cells_def)

lemma nd_exc_run:
  "\<exists>s'. run_cells derived_quantity_cells (loaded nd_exc) = Inr s'"
proof -
  have m: "\<exists>m6 m7. indegree_modifications nd_exc meso_neuron_params
             (tau_syn_array meso_neuron_params) rates_meso_full = Inr [m6, m7]"
    by (simp add: modifications_shaped [OF nd_exc_shaped(6)])
  then obtain m6 m7 where "indegree_modifications nd_exc meso_neuron_params
             (tau_syn_array meso_neuron_params) rates_meso_full = Inr [m6, m7]" by blast
  then show ?thesis
    by (simp add: derived_quantity_cells_def loaded_def cell_num_neurons_def cell_extent_def
        cell_neuron_params_def cell_indegrees_def cell_beta_def cell_mask_scaling_def
        cell_weights_def cell_delays_def cell_bg_rate_def cell_rates_meso_def cell_tau_syn_def
        cell_indegree_modifications_def cell_K_ext_def L6_entries_def np_getitem2_def
        np_getitem_def py_index_def K_ext_L6E_def K_ext_L6I_def K_ext_def K_ext_total_def
        nd_exc_def [unfolded table_with_def])
qed

theorem table_never_mutated_witness:
  "\<exists>s'. run_cells (take 13 derived_quantity_cells) (loaded nd_exc) = Inr s' \<and>
         net_dict s' = nd_exc"
proof -
  from nd_exc_run obtain s' where
    r: "run_cells (take 13 derived_quantity_cells) (loaded nd_exc) = Inr s'"
    by (auto simp only: take_all_cells)
  from table_never_mutated [OF r] have "net_dict s' = nd_exc"
    by (simp add: loaded_def)
  with r show ?thesis by blast
qed


section \<open>The rounding rule\<close>

lemma representable_half_bound:
  assumes "representable (of_int n + 1 / 2)"
  shows "- (2 ^ 52) \<le> n" and "n < 2 ^ 52"
proof -
  from assms obtain m e :: int where x: "of_int n + 1 / 2 = real_of_int m * 2 powi e"
    and m: "\<bar>m\<bar> < 2 ^ 53" and e: "- 1074 \<le> e"
    by (auto simp: representable_def)
  have neg: "e < 0"
  proof (rule ccontr)
    assume "\<not> e < 0"
    then have "(2::real) powi e = of_int (2 ^ nat e)" by (simp add: power_int_def)
    with x have "real_of_int n + 1 / 2 = real_of_int (m * 2 ^ nat e)" by simp
    then have "real_of_int (2 * n + 1) = real_of_int (2 * (m * 2 ^ nat e))" by simp
    then have "2 * n + 1 = 2 * (m * 2 ^ nat e)" by (rule of_int_eq_iff [THEN iffD1])
    then show False by presburger
  qed
  then have "(2::real) powi e \<le> 2 powi (- 1)" by (intro power_int_increasing) simp_all
  then have p: "(2::real) powi e \<le> 1 / 2" by (simp add: power_int_minus_divide)
  from m have "\<bar>real_of_int m\<bar> < 2 ^ 53"
    using of_int_less_iff [of "\<bar>m\<bar>" "2 ^ 53", where ?'a = real] by simp
  then have "\<bar>real_of_int m\<bar> * (1 / 2) < 2 ^ 53 * (1 / 2)" by simp
  moreover have "\<bar>real_of_int m\<bar> * 2 powi e \<le> \<bar>real_of_int m\<bar> * (1 / 2)"
    using p by (intro mult_left_mono) simp_all
  ultimately have "\<bar>real_of_int m\<bar> * 2 powi e < 2 ^ 53 * (1 / 2)" by linarith
  then have "\<bar>real_of_int n + 1 / 2\<bar> < 2 ^ 52" by (simp add: x abs_mult)
  then have b: "real_of_int n < 2 ^ 52 - 1 / 2" "- (2 ^ 52) - 1 / 2 < real_of_int n"
    by (simp_all add: abs_less_iff)
  from b(1) have "real_of_int n < real_of_int (2 ^ 52)" by simp
  then show "n < 2 ^ 52" by (rule of_int_less_iff [THEN iffD1])
  from b(2) have "real_of_int (- (2 ^ 52) - 1) < real_of_int n" by simp
  then have "- (2 ^ 52) - 1 < n" by (rule of_int_less_iff [THEN iffD1])
  then show "- (2 ^ 52) \<le> n" by simp
qed

lemma K_ext_total_representable:
  assumes "K_ext_total nd mods popid k = Inr (Finite v)"
  shows "representable v"
  using assms
  by (auto simp add: K_ext_total_def split: sum.splits intro: fadd_representable)

text \<open>
  C3, as the code has it. When the \<^verbatim>\<open>float64\<close> sum of the original external in-degree
  and the in-degree modification lies exactly halfway between the integers \<open>n\<close> and
  \<open>n + 1\<close>, the new external in-degree is the even one of the two: \<^verbatim>\<open>np.round\<close>
  rounds a tie to even, so the result is the larger integer only when \<open>n\<close> is odd.
\<close>

theorem tie_rounds_to_even:
  assumes "K_ext_total nd mods popid k = Inr (Finite (of_int n + 1 / 2))"
  shows "K_ext nd mods popid k = Inr (if even n then n else n + 1)"
proof -
  from K_ext_total_representable [OF assms] have "representable (of_int n + 1 / 2)" .
  from representable_half_bound [OF this]
  have "real_of_int (- (2 ^ 52)) \<le> real_of_int n" "real_of_int n < real_of_int (2 ^ 52)"
    by (simp_all only: of_int_le_iff of_int_less_iff)
  then have "rounds_to_int64 (Finite (of_int n + 1 / 2))"
    by (simp add: rounds_to_int64_def)
  then show ?thesis
    by (simp add: K_ext_def assms astype_int_round round_half_even_tie)
qed

lemma nd_exc_total:
  "K_ext_total nd_exc [Finite 2000, Finite 2000] 6 0 = Inr (Finite (4005 / 2))"
  by (simp add: K_ext_total_shaped nd_exc_ext float_eval)

theorem tie_rounds_to_even_witness:
  "K_ext_total nd_exc [Finite 2000, Finite 2000] 6 0 = Inr (Finite (of_int 2002 + 1 / 2)) \<and>
   K_ext nd_exc [Finite 2000, Finite 2000] 6 0 = Inr 2002"
proof -
  have t: "K_ext_total nd_exc [Finite 2000, Finite 2000] 6 0 = Inr (Finite (of_int 2002 + 1 / 2))"
    by (simp add: nd_exc_total)
  from tie_rounds_to_even [OF t] t show ?thesis by simp
qed

text \<open>
  C3, as stated, fails: with original in-degree 5/2 and in-degree modification 2000 the
  total 2002.5 is halfway between 2002 and 2003, and the new in-degree of L6E is 2002,
  not 2003.
\<close>

theorem half_up_counterexample:
  "indegree_modifications nd_exc meso_neuron_params (tau_syn_array meso_neuron_params) rates_two =
     Inr [Finite 2000, Finite 2000] \<and>
   K_ext_total nd_exc [Finite 2000, Finite 2000] 6 0 = Inr (Finite (2002 + 1 / 2)) \<and>
   K_ext_L6E nd_exc [Finite 2000, Finite 2000] = Inr 2002 \<and>
   K_ext_L6E nd_exc [Finite 2000, Finite 2000] \<noteq> Inr 2003"
  by (simp add: nd_exc_modifications nd_exc_total K_ext_L6E_def K_ext_def astype_int_round
      rounds_to_int64_def)

section \<open>No excluded population\<close>

lemma modifications_no_excluded:
  assumes "indegree_modifications_of nd p tau_syn rates_meso included_popids [] = Inr mods"
  shows "mods = [Finite 0, Finite 0]"
  using assms
  by (auto simp add: indegree_modifications_of_def included_popids_def np_sum_def
      split: sum.splits)

lemma round_plus_zero:
  assumes "is_float64 a"
  shows "astype_int (np_round (fadd a (Finite 0))) = astype_int (np_round a)"
  using assms
  by (cases "a = NegZero") (simp_all add: fadd_zero_right astype_int_round rounds_to_int64_def)

lemma K_ext_zero:
  assumes "K_ext nd [Finite 0, Finite 0] popid k = Inr a" and "0 \<le> popid"
    and "is_float64 (ext_indegrees nd ! nat popid)"
  shows "a = astype_int (np_round (ext_indegrees nd ! nat popid))"
proof -
  from assms(1) obtain base m where b: "np_getitem (ext_indegrees nd) popid = Inr base"
    and m: "np_getitem [Finite 0, Finite 0] k = Inr m"
    and a: "a = astype_int (np_round (fadd base m))"
    by (auto simp add: K_ext_def K_ext_total_def split: sum.splits)
  from m have "m = Finite 0"
    by (auto simp add: np_getitem_def py_index_def Let_def nth_Cons' split: if_splits)
  with a np_getitem_nonneg(1) [OF b assms(2)] assms(3) show ?thesis
    by (simp add: round_plus_zero)
qed

lemma rounded_int64_integer:
  assumes "rounded_int64 (Finite (of_int n)) a" and "- (2 ^ 63) \<le> n" and "n < 2 ^ 63"
  shows "a = n"
proof -
  from assms(2,3) have "real_of_int (- (2 ^ 63)) \<le> real_of_int n"
    "real_of_int n < real_of_int (2 ^ 63)"
    by (simp_all only: of_int_le_iff of_int_less_iff)
  then have "rounds_to_int64 (Finite (of_int n))" by (simp add: rounds_to_int64_def)
  with rounded_int64_unique [OF assms(1)] show ?thesis by (simp add: astype_int_round)
qed

text \<open>
  C4, as the code has it. When the list of excluded populations is empty and the cells
  raise no exception, both in-degree modifications are zero and the new external
  in-degree is the original one rounded by \<^verbatim>\<open>np.round\<close> and converted to \<^verbatim>\<open>int64\<close>; it
  equals the original in-degree when that is an integer within \<^verbatim>\<open>int64\<close>.
\<close>

theorem no_excluded_rounds_original:
  assumes "adjusted_ext_indegrees_of nd p tau_syn rates_meso included_popids [] = Inr (a, b)"
    and "is_float64 (ext_indegrees nd ! 6)" and "is_float64 (ext_indegrees nd ! 7)"
  shows "indegree_modifications_of nd p tau_syn rates_meso included_popids [] =
           Inr [Finite 0, Finite 0] \<and>
         rounded_int64 (ext_indegrees nd ! 6) a \<and>
         rounded_int64 (ext_indegrees nd ! 7) b \<and>
         (\<forall>n. ext_indegrees nd ! 6 = Finite (of_int n) \<and> - (2 ^ 63) \<le> n \<and> n < 2 ^ 63
               \<longrightarrow> a = n) \<and>
         (\<forall>n. ext_indegrees nd ! 7 = Finite (of_int n) \<and> - (2 ^ 63) \<le> n \<and> n < 2 ^ 63
               \<longrightarrow> b = n)"
proof -
  from assms(1) obtain mods
    where m: "indegree_modifications_of nd p tau_syn rates_meso included_popids [] = Inr mods"
      and a: "K_ext nd mods 6 0 = Inr a" and b: "K_ext nd mods 7 1 = Inr b"
    by (auto simp add: adjusted_ext_indegrees_of_def K_ext_L6E_def K_ext_L6I_def
        split: sum.splits)
  have z: "mods = [Finite 0, Finite 0]" by (rule modifications_no_excluded [OF m])
  have a': "a = astype_int (np_round (ext_indegrees nd ! 6))"
    using K_ext_zero [of nd 6 0 a] a z assms(2) by simp
  have b': "b = astype_int (np_round (ext_indegrees nd ! 7))"
    using K_ext_zero [of nd 7 1 b] b z assms(3) by simp
  have ra: "rounded_int64 (ext_indegrees nd ! 6) a" unfolding a' by (rule rounded_int64_astype)
  have rb: "rounded_int64 (ext_indegrees nd ! 7) b" unfolding b' by (rule rounded_int64_astype)
  have ia: "a = n" if "ext_indegrees nd ! 6 = Finite (of_int n)" "- (2 ^ 63) \<le> n" "n < 2 ^ 63"
    for n using ra that by (auto intro: rounded_int64_integer)
  have ib: "b = n" if "ext_indegrees nd ! 7 = Finite (of_int n)" "- (2 ^ 63) \<le> n" "n < 2 ^ 63"
    for n using rb that by (auto intro: rounded_int64_integer)
  from ra rb m z ia ib show ?thesis by blast
qed


lemma nd_exc_no_excluded:
  "adjusted_ext_indegrees_of nd_exc meso_neuron_params (tau_syn_array meso_neuron_params)
     rates_two included_popids [] = Inr (2, 35)"
proof -
  have r: "rec_input nd_exc meso_neuron_params (tau_syn_array meso_neuron_params) rates_two 6 =
             Inr (map (contribution nd_exc meso_neuron_params (tau_syn_array meso_neuron_params)
                    rates_two 6) [0 ..< 8])"
    "rec_input nd_exc meso_neuron_params (tau_syn_array meso_neuron_params) rates_two 7 =
             Inr (map (contribution nd_exc meso_neuron_params (tau_syn_array meso_neuron_params)
                    rates_two 7) [0 ..< 8])"
    using rec_input_shaped [OF nd_exc_shaped(1), of 6 meso_neuron_params]
      rec_input_shaped [OF nd_exc_shaped(1), of 7 meso_neuron_params] by simp_all
  have m: "indegree_modifications_of nd_exc meso_neuron_params
             (tau_syn_array meso_neuron_params) rates_two included_popids [] =
           Inr [Finite 0, Finite 0]"
    by (simp add: indegree_modifications_of_def included_popids_def r np_sum_def
        del: upt_Suc)
  have t: "K_ext_total nd_exc [Finite 0, Finite 0] 6 0 = Inr (Finite (5 / 2))"
    "K_ext_total nd_exc [Finite 0, Finite 0] 7 1 = Inr (Finite 35)"
    by (simp_all add: K_ext_total_shaped nd_exc_ext float_eval)
  show ?thesis
    by (simp add: adjusted_ext_indegrees_of_def m K_ext_L6E_def K_ext_L6I_def K_ext_def t
        astype_int_round rounds_to_int64_def)
qed

lemma nd_exc_ext_float:
  "is_float64 (ext_indegrees nd_exc ! 6)" "is_float64 (ext_indegrees nd_exc ! 7)"
  by (simp_all add: nd_exc_ext)

theorem no_excluded_rounds_original_witness:
  "adjusted_ext_indegrees_of nd_exc meso_neuron_params (tau_syn_array meso_neuron_params)
     rates_two included_popids [] = Inr (2, 35) \<and>
   is_float64 (ext_indegrees nd_exc ! 6) \<and> is_float64 (ext_indegrees nd_exc ! 7) \<and>
   indegree_modifications_of nd_exc meso_neuron_params (tau_syn_array meso_neuron_params)
     rates_two included_popids [] = Inr [Finite 0, Finite 0] \<and>
   rounded_int64 (Finite (5 / 2)) 2 \<and>
   ext_indegrees nd_exc ! 7 = Finite (of_int 35)"
  using no_excluded_rounds_original [OF nd_exc_no_excluded nd_exc_ext_float] nd_exc_no_excluded
    nd_exc_ext_float
  by (simp add: nd_exc_ext)

text \<open>
  C4, as stated, fails for an original in-degree that is not an integer: with no
  excluded population and the original in-degree 5/2 of L6E the new in-degree is 2.
\<close>

theorem no_excluded_counterexample:
  "ext_indegrees nd_exc ! 6 = Finite (5 / 2) \<and>
   adjusted_ext_indegrees_of nd_exc meso_neuron_params (tau_syn_array meso_neuron_params)
     rates_two included_popids [] = Inr (2, 35) \<and>
   real_of_int 2 \<noteq> valof (ext_indegrees nd_exc ! 6)"
  by (simp add: nd_exc_no_excluded nd_exc_ext)

section \<open>Range and sign of the new external in-degree\<close>

lemma astype_int_sign:
  "0 \<le> astype_int (np_round t) \<longleftrightarrow>
     is_finite t \<and> - 1 / 2 \<le> valof t \<and> valof t < 2 ^ 63 - 1 / 2"
  using round_half_even_sign [of "valof t"]
  by (auto simp add: astype_int_round rounds_to_int64_def)

text \<open>
  C6, as the code has it. Whenever the two cells raise no exception, whatever the shape
  of the input, the new external in-degree is an integer of \<^verbatim>\<open>int64\<close>, between
  \<open>- 2 ^ 63\<close> and \<open>2 ^ 63 - 1\<close>. It is non-negative exactly when the \<^verbatim>\<open>float64\<close> sum of
  original in-degree and modification that is rounded is finite, at least \<open>- 1 / 2\<close>
  and rounds to less than \<open>2 ^ 63\<close>. The code has no clamp at zero.
\<close>

theorem adjusted_int64_sign:
  assumes "adjusted_ext_indegrees_of nd p tau_syn rates_meso incl excl = Inr (a, b)"
  shows "- (2 ^ 63) \<le> a \<and> a < 2 ^ 63 \<and> - (2 ^ 63) \<le> b \<and> b < 2 ^ 63 \<and>
         (\<exists>mods t6 t7.
            indegree_modifications_of nd p tau_syn rates_meso incl excl = Inr mods \<and>
            K_ext_total nd mods 6 0 = Inr t6 \<and> K_ext_total nd mods 7 1 = Inr t7 \<and>
            (0 \<le> a \<longleftrightarrow> is_finite t6 \<and> - 1 / 2 \<le> valof t6 \<and> valof t6 < 2 ^ 63 - 1 / 2) \<and>
            (0 \<le> b \<longleftrightarrow> is_finite t7 \<and> - 1 / 2 \<le> valof t7 \<and> valof t7 < 2 ^ 63 - 1 / 2))"
proof -
  from assms obtain mods t6 t7
    where m: "indegree_modifications_of nd p tau_syn rates_meso incl excl = Inr mods"
      and t6: "K_ext_total nd mods 6 0 = Inr t6" and t7: "K_ext_total nd mods 7 1 = Inr t7"
      and a: "a = astype_int (np_round t6)" and b: "b = astype_int (np_round t7)"
    by (auto simp add: adjusted_ext_indegrees_of_def K_ext_L6E_def K_ext_L6I_def K_ext_def
        split: sum.splits)
  have "- (2 ^ 63) \<le> a \<and> a < 2 ^ 63" unfolding a by (rule astype_int_range)
  moreover have "- (2 ^ 63) \<le> b \<and> b < 2 ^ 63" unfolding b by (rule astype_int_range)
  moreover have "0 \<le> a \<longleftrightarrow> is_finite t6 \<and> - 1 / 2 \<le> valof t6 \<and> valof t6 < 2 ^ 63 - 1 / 2"
    unfolding a by (rule astype_int_sign)
  moreover have "0 \<le> b \<longleftrightarrow> is_finite t7 \<and> - 1 / 2 \<le> valof t7 \<and> valof t7 < 2 ^ 63 - 1 / 2"
    unfolding b by (rule astype_int_sign)
  ultimately show ?thesis using m t6 t7 by blast
qed

lemma nd_exc_adjusted_of:
  "adjusted_ext_indegrees_of nd_exc meso_neuron_params (tau_syn_array meso_neuron_params)
     rates_two included_popids excluded_popids = Inr (2002, 2035)"
  using nd_exc_adjusted by (simp only: adjusted_ext_indegrees_def)

theorem adjusted_int64_sign_witness:
  "adjusted_ext_indegrees_of nd_exc meso_neuron_params (tau_syn_array meso_neuron_params)
     rates_two included_popids excluded_popids = Inr (2002, 2035) \<and>
   (\<exists>mods t6 t7.
      indegree_modifications_of nd_exc meso_neuron_params (tau_syn_array meso_neuron_params)
        rates_two included_popids excluded_popids = Inr mods \<and>
      K_ext_total nd_exc mods 6 0 = Inr t6 \<and> K_ext_total nd_exc mods 7 1 = Inr t7 \<and>
      is_finite t6 \<and> - 1 / 2 \<le> valof t6 \<and> valof t6 < 2 ^ 63 - 1 / 2 \<and>
      is_finite t7 \<and> - 1 / 2 \<le> valof t7 \<and> valof t7 < 2 ^ 63 - 1 / 2)"
  using adjusted_int64_sign [OF nd_exc_adjusted_of] nd_exc_adjusted_of by simp

lemma nd_inh_contribution:
  assumes "i = 6 \<or> i = 7"
  shows "map (contribution nd_inh meso_neuron_params (tau_syn_array meso_neuron_params) rates_two i)
           [0 ..< 6] = map Finite [0, 0, 0, - 8000, 0, 0]"
  unfolding nd_inh_def upt_6
  by (simp add: contribution_table [OF assms] rates_two_def float_eval)

lemma nd_inh_sum:
  assumes "i = 6 \<or> i = 7"
  shows "compensation_sum nd_inh meso_neuron_params (tau_syn_array meso_neuron_params) rates_two i
           = Finite (- 8000)"
  by (simp add: compensation_sum_def nd_inh_contribution [OF assms] float_eval)

lemma nd_inh_ext:
  "length (ext_indegrees nd_inh) = 9"
  "ext_indegrees nd_inh ! 6 = Finite (5 / 2)" "ext_indegrees nd_inh ! 7 = Finite 35"
  by (simp_all add: nd_inh_def table_with_rows)

lemma representable_neg_half [simp]:
  "(numeral k :: int) < 2 ^ 53 \<Longrightarrow> representable (- (numeral k / 2))"
  using representable_half [of "- numeral k"] by simp

lemma fl_neg_fraction [simp]:
  "representable (- (numeral k / numeral l)) \<Longrightarrow>
   fl neg (- (numeral k / numeral l)) = Finite (- (numeral k / numeral l))"
  using fl_fixed [of "- (numeral k / numeral l)" neg] by simp

lemma round_minus_tie [simp]: "round_half_even (- (15995 / 2)) = - 7998"
  using round_half_even_tie [of "- 7998"] by simp

lemma nd_inh_adjusted:
  "adjusted_ext_indegrees nd_inh meso_neuron_params (tau_syn_array meso_neuron_params) rates_two =
     Inr (- 7998, - 7965)"
  by (simp add: adjusted_shaped [OF nd_exc_shaped(3)] nd_inh_ext nd_inh_sum float_eval
      astype_int_round rounds_to_int64_def)

text \<open>
  C6, as stated, fails: an inhibitory source has a negative mean weight. With the one
  source of weight -10, time constant 8, rate 2 and in-degree 100 the compensation sum
  is -8000 and the new external in-degrees are negative.
\<close>

theorem negative_indegree_counterexample:
  "adjusted_ext_indegrees nd_inh meso_neuron_params (tau_syn_array meso_neuron_params) rates_two =
     Inr (- 7998, - 7965) \<and> \<not> (0::int) \<le> - 7998"
  by (simp add: nd_inh_adjusted)


section \<open>A rate that is not a binary fraction\<close>

lemma rnd_tenth: "rnd (1 / 10) = 3602879701896397 / 36028797018963968"
proof -
  have "rnd (1 / 10) =
          of_int (round_half_even ((1 / 10) / 2 powi (- 4 - 52))) * 2 powi (- 4 - 52)"
    by (rule rnd_eval) (simp_all add: power_int_minus_divide)
  also have "(1 / 10) / 2 powi (- 4 - 52) = (36028797018963968 / 5 :: real)"
    by (simp add: power_int_minus_divide)
  also have "round_half_even (36028797018963968 / 5) = 7205759403792794"
    by (simp add: round_half_even_def Let_def)
  finally show ?thesis by (simp add: power_int_minus_divide)
qed

lemma literal_tenth:
  "literal (1 / 10) = Finite (3602879701896397 / 36028797018963968)"
  by (simp add: literal_def fl_def rnd_tenth)

lemma rnd_five_tenths: "rnd (18014398509481985 / 36028797018963968) = 1 / 2"
proof -
  have "rnd (18014398509481985 / 36028797018963968) =
          of_int (round_half_even ((18014398509481985 / 36028797018963968) / 2 powi (- 1 - 52)))
            * 2 powi (- 1 - 52)"
    by (rule rnd_eval) (simp_all add: power_int_minus_divide)
  also have "(18014398509481985 / 36028797018963968) / 2 powi (- 1 - 52)
               = (18014398509481985 / 4 :: real)"
    by (simp add: power_int_minus_divide)
  also have "round_half_even (18014398509481985 / 4) = 4503599627370496"
    by (simp add: round_half_even_def Let_def)
  finally show ?thesis by (simp add: power_int_minus_divide)
qed

lemma fl_five_tenths [simp]:
  "fl neg (18014398509481985 / 36028797018963968) = Finite (1 / 2)"
  by (simp add: fl_def rnd_five_tenths)

lemma fl_tenth [simp]:
  "fl neg (3602879701896397 / 36028797018963968) = Finite (3602879701896397 / 36028797018963968)"
proof -
  have "representable (3602879701896397 / 36028797018963968)"
    using fl_representable [of False "1 / 10"] literal_tenth by (simp add: literal_def)
  from fl_fixed [OF this, of neg] show ?thesis by simp
qed

lemma fl_one_half [simp]: "fl neg (1 / 2) = Finite (1 / 2)"
  using fl_fixed [of "1 / 2" neg] representable_half [of 1] by simp

lemma nd_five_contribution:
  assumes "i = 6 \<or> i = 7"
  shows "map (contribution nd_five meso_neuron_params (tau_syn_array meso_neuron_params)
                rates_tenth i) [0 ..< 6] = map Finite [1 / 2, 0, 0, 0, 0, 0]"
  unfolding nd_five_def upt_6
  by (simp add: contribution_table [OF assms] rates_tenth_def literal_tenth float_eval)

lemma nd_five_sum:
  assumes "i = 6 \<or> i = 7"
  shows "compensation_sum nd_five meso_neuron_params (tau_syn_array meso_neuron_params)
           rates_tenth i = Finite (1 / 2)"
  by (simp add: compensation_sum_def nd_five_contribution [OF assms] float_eval)

lemma nd_five_ext:
  "length (ext_indegrees nd_five) = 9"
  "ext_indegrees nd_five ! 6 = Finite 2" "ext_indegrees nd_five ! 7 = Finite 2"
  by (simp_all add: nd_five_def table_with_rows)

lemma nd_five_modifications:
  "indegree_modifications nd_five meso_neuron_params (tau_syn_array meso_neuron_params)
     rates_tenth = Inr [Finite (1 / 2), Finite (1 / 2)]"
  by (simp add: modifications_shaped [OF nd_exc_shaped(4)] nd_five_sum float_eval)

lemma fl_five_halves [simp]: "fl neg (5 / 2) = Finite (5 / 2)"
  using fl_fixed [of "5 / 2" neg] by simp

lemma nd_five_adjusted:
  "adjusted_ext_indegrees nd_five meso_neuron_params (tau_syn_array meso_neuron_params)
     rates_tenth = Inr (2, 2)"
  by (simp add: adjusted_shaped [OF nd_exc_shaped(4)] nd_five_ext nd_five_sum float_eval
      astype_int_round rounds_to_int64_def)

lemma sum_upto_6: "(\<Sum>j = 0 ..< (6::nat). f j) = f 0 + f 1 + f 2 + f 3 + f 4 + (f 5 :: real)"
  by (simp add: eval_nat_numeral)

lemma nd_five_exact:
  "exact_sum nd_five meso_neuron_params (tau_syn_array meso_neuron_params) rates_tenth 6 =
     1 / 2 + 1 / 2 ^ 55"
  "exact_drive nd_five (tau_syn_array meso_neuron_params) rates_tenth 6 = 1 + 1 / 2 ^ 54"
  by (simp_all add: exact_sum_def exact_drive_def exact_contribution_def sum_upto_6 nd_five_def
      table_with_rows tau_syn_array_meso meso_tau_syn_ex rates_tenth_def literal_tenth)


section \<open>The compensation formula\<close>

text \<open>
  C1, as the code has it. On a table of the full model's shape the in-degree modification
  of target population \<open>i\<close> (6 for L6E, 7 for L6I) is \<^verbatim>\<open>0.0\<close> plus the \<^verbatim>\<open>float64\<close> sum,
  accumulated in index order from \<^verbatim>\<open>0.0\<close>, over exactly the excluded sources
  \<open>j = 0, \<dots>, 5\<close> of the \<^verbatim>\<open>float64\<close> value of
  \<open>(mean_weight(i,j) * tau_syn(j)) / (weight_ext * tau_syn_ex) * (rate(j) / bg_rate) * indegree(i,j)\<close>,
  and the new external in-degree is the \<^verbatim>\<open>float64\<close> sum of the original one and that
  modification, rounded to the nearest integer, a tie to even, as an \<^verbatim>\<open>int64\<close>. The
  instance below is the example of one source with weight 10, time constant 2, rate 2
  and in-degree 100 against external weight 1, time constant 2 and background rate 1:
  its contribution is 2000.
\<close>

theorem modification_formula:
  assumes "well_shaped nd tau_syn rates_meso"
  shows "indegree_modifications nd p tau_syn rates_meso =
           Inr [fadd (Finite 0)
                  (foldl fadd (Finite 0) (map (contribution nd p tau_syn rates_meso 6) [0 ..< 6])),
                fadd (Finite 0)
                  (foldl fadd (Finite 0) (map (contribution nd p tau_syn rates_meso 7) [0 ..< 6]))] \<and>
         (7 < length (ext_indegrees nd) \<longrightarrow>
          (\<exists>a b. adjusted_ext_indegrees nd p tau_syn rates_meso = Inr (a, b) \<and>
             rounded_int64
               (fadd (ext_indegrees nd ! 6) (fadd (Finite 0)
                  (foldl fadd (Finite 0) (map (contribution nd p tau_syn rates_meso 6) [0 ..< 6]))))
               a \<and>
             rounded_int64
               (fadd (ext_indegrees nd ! 7) (fadd (Finite 0)
                  (foldl fadd (Finite 0) (map (contribution nd p tau_syn rates_meso 7) [0 ..< 6]))))
               b))"
proof (intro conjI impI)
  show "indegree_modifications nd p tau_syn rates_meso =
           Inr [fadd (Finite 0)
                  (foldl fadd (Finite 0) (map (contribution nd p tau_syn rates_meso 6) [0 ..< 6])),
                fadd (Finite 0)
                  (foldl fadd (Finite 0) (map (contribution nd p tau_syn rates_meso 7) [0 ..< 6]))]"
    using modifications_shaped [OF assms, of p] by (simp only: compensation_sum_def)
next
  assume len: "7 < length (ext_indegrees nd)"
  show "\<exists>a b. adjusted_ext_indegrees nd p tau_syn rates_meso = Inr (a, b) \<and>
             rounded_int64
               (fadd (ext_indegrees nd ! 6) (fadd (Finite 0)
                  (foldl fadd (Finite 0) (map (contribution nd p tau_syn rates_meso 6) [0 ..< 6]))))
               a \<and>
             rounded_int64
               (fadd (ext_indegrees nd ! 7) (fadd (Finite 0)
                  (foldl fadd (Finite 0) (map (contribution nd p tau_syn rates_meso 7) [0 ..< 6]))))
               b"
  proof -
    let ?t6 = "fadd (ext_indegrees nd ! 6) (fadd (Finite 0)
                  (foldl fadd (Finite 0) (map (contribution nd p tau_syn rates_meso 6) [0 ..< 6])))"
    let ?t7 = "fadd (ext_indegrees nd ! 7) (fadd (Finite 0)
                  (foldl fadd (Finite 0) (map (contribution nd p tau_syn rates_meso 7) [0 ..< 6])))"
    have "adjusted_ext_indegrees nd p tau_syn rates_meso =
            Inr (astype_int (np_round ?t6), astype_int (np_round ?t7))"
      by (simp only: adjusted_shaped [OF assms len] compensation_sum_def)
    moreover have "rounded_int64 ?t6 (astype_int (np_round ?t6))"
      by (rule rounded_int64_astype)
    moreover have "rounded_int64 ?t7 (astype_int (np_round ?t7))"
      by (rule rounded_int64_astype)
    ultimately show ?thesis by blast
  qed
qed

lemma nd_exc_first_contribution:
  "contribution nd_exc meso_neuron_params (tau_syn_array meso_neuron_params) rates_two 6 0 =
     Finite 2000"
  unfolding nd_exc_def
  by (simp add: contribution_table rates_two_def float_eval)

lemma nd_exc_totals:
  "fadd (ext_indegrees nd_exc ! 6) (fadd (Finite 0) (foldl fadd (Finite 0)
     (map (contribution nd_exc meso_neuron_params (tau_syn_array meso_neuron_params) rates_two 6)
        [0 ..< 6]))) = Finite (4005 / 2)"
  "fadd (ext_indegrees nd_exc ! 7) (fadd (Finite 0) (foldl fadd (Finite 0)
     (map (contribution nd_exc meso_neuron_params (tau_syn_array meso_neuron_params) rates_two 7)
        [0 ..< 6]))) = Finite 2035"
  by (simp_all add: nd_exc_contribution nd_exc_ext float_eval)

theorem modification_formula_witness:
  "well_shaped nd_exc (tau_syn_array meso_neuron_params) rates_two \<and>
   7 < length (ext_indegrees nd_exc) \<and>
   contribution nd_exc meso_neuron_params (tau_syn_array meso_neuron_params) rates_two 6 0 =
     Finite 2000 \<and>
   indegree_modifications nd_exc meso_neuron_params (tau_syn_array meso_neuron_params) rates_two =
     Inr [Finite 2000, Finite 2000] \<and>
   adjusted_ext_indegrees nd_exc meso_neuron_params (tau_syn_array meso_neuron_params) rates_two =
     Inr (2002, 2035) \<and>
   rounded_int64 (Finite (5 / 2 + 2000)) 2002 \<and> rounded_int64 (Finite (35 + 2000)) 2035"
proof -
  have len: "7 < length (ext_indegrees nd_exc)" by (simp add: nd_exc_ext)
  from modification_formula [OF nd_exc_shaped(1), of meso_neuron_params] len
  have "rounded_int64 (Finite (4005 / 2)) 2002 \<and> rounded_int64 (Finite 2035) 2035"
    by (simp add: nd_exc_totals nd_exc_adjusted)
  with len show ?thesis
    by (simp add: nd_exc_shaped nd_exc_first_contribution nd_exc_modifications nd_exc_adjusted)
qed

text \<open>
  C1, as stated, fails: the sum and the rounding are those of \<^verbatim>\<open>float64\<close> arithmetic,
  not of the real numbers. With one source of weight 5, in-degree 1 and rate \<^verbatim>\<open>0.1\<close>
  and the original in-degree 2, the sum of the formula over the reals is
  \<open>1/2 + 2 ^ - 55\<close> and rounds, added to 2, to 3; the code computes the modification
  \<open>1/2\<close> and the new in-degree 2.
\<close>

theorem real_formula_counterexample:
  "indegree_modifications nd_five meso_neuron_params (tau_syn_array meso_neuron_params)
     rates_tenth = Inr [Finite (1 / 2), Finite (1 / 2)] \<and>
   exact_sum nd_five meso_neuron_params (tau_syn_array meso_neuron_params) rates_tenth 6 =
     1 / 2 + 1 / 2 ^ 55 \<and>
   adjusted_ext_indegrees nd_five meso_neuron_params (tau_syn_array meso_neuron_params)
     rates_tenth = Inr (2, 2) \<and>
   nearest_even (valof (ext_indegrees nd_five ! 6) +
     exact_sum nd_five meso_neuron_params (tau_syn_array meso_neuron_params) rates_tenth 6) 3"
  by (simp add: nd_five_modifications nd_five_adjusted nd_five_exact nd_five_ext
      nearest_even_def)

section \<open>The mean drive\<close>









section \<open>Monotonicity in a reference rate\<close>

lemma fdiv_zero_divisor:
  assumes "is_finite (fdiv a b)" and "valof b = 0"
  shows "valof (fdiv a b) = 0"
  using assms
  by (cases b) (auto simp add: fdiv_def signed_zero_def signed_inf_def split: if_splits)

lemma fmul_valof_nonneg:
  assumes "is_finite (fmul a b)" and "0 \<le> valof a" and "0 \<le> valof b"
  shows "0 \<le> valof (fmul a b)"
  using fmul_finite(3) [OF assms(1)] assms(2,3) by (simp add: rnd_nonneg)

text \<open>
  The sign of the ratio of the weighted time constants: the divisor is positive, zero
  (after an underflow) or infinite (after an overflow), and the ratio has the sign of the
  weight or is zero.
\<close>

lemma ratio_sign:
  assumes fin: "is_finite (fdiv (fmul w t) (fmul we te))"
    and t: "0 < valof t" and we: "0 < valof we" and te: "0 < valof te"
  shows "(0 \<le> valof w \<longrightarrow> 0 \<le> valof (fdiv (fmul w t) (fmul we te))) \<and>
         (valof w \<le> 0 \<longrightarrow> valof (fdiv (fmul w t) (fmul we te)) \<le> 0)"
proof (cases "valof (fmul we te) = 0")
  case True
  with fin show ?thesis by (simp add: fdiv_zero_divisor)
next
  case False
  then have fd: "is_finite (fmul we te)" by (cases "fmul we te") simp_all
  from fmul_finite(3) [OF fd] we te have "0 \<le> valof (fmul we te)"
    by (simp add: rnd_nonneg)
  with False have d: "0 < valof (fmul we te)" by simp
  have fn: "is_finite (fmul w t)" by (rule fdiv_finite(1) [OF fin])
  have n: "valof (fmul w t) = rnd (valof w * valof t)" by (rule fmul_finite(3) [OF fn])
  have q: "valof (fdiv (fmul w t) (fmul we te)) = rnd (valof (fmul w t) / valof (fmul we te))"
    by (rule fdiv_finite(2) [OF fin False])
  show ?thesis
  proof (intro conjI impI)
    assume "0 \<le> valof w"
    with t have "0 \<le> valof w * valof t" by simp
    then have "0 \<le> valof (fmul w t)" unfolding n by (rule rnd_nonneg)
    with d have "0 \<le> valof (fmul w t) / valof (fmul we te)" by simp
    then show "0 \<le> valof (fdiv (fmul w t) (fmul we te))" unfolding q by (rule rnd_nonneg)
  next
    assume "valof w \<le> 0"
    with t have "valof w * valof t \<le> 0" by (simp add: mult_nonpos_nonneg)
    then have "valof (fmul w t) \<le> 0" unfolding n by (rule rnd_nonpos)
    with d have "valof (fmul w t) / valof (fmul we te) \<le> 0"
      by (simp add: divide_nonpos_pos)
    then show "valof (fdiv (fmul w t) (fmul we te)) \<le> 0" unfolding q by (rule rnd_nonpos)
  qed
qed

text \<open>One contribution as a function of the rate, for a ratio \<open>a\<close> of either sign.\<close>

lemma scaled_rate_mono:
  assumes f1: "is_finite (fmul (fmul a (fdiv r bg)) k)"
    and f2: "is_finite (fmul (fmul a (fdiv x bg)) k)"
    and bg: "0 < valof bg" and k: "0 \<le> valof k" and le: "valof r \<le> valof x"
  shows "(0 \<le> valof a \<longrightarrow>
            valof (fmul (fmul a (fdiv r bg)) k) \<le> valof (fmul (fmul a (fdiv x bg)) k)) \<and>
         (valof a \<le> 0 \<longrightarrow>
            valof (fmul (fmul a (fdiv x bg)) k) \<le> valof (fmul (fmul a (fdiv r bg)) k))"
proof -
  from bg have nz: "valof bg \<noteq> 0" by simp
  have g1: "is_finite (fmul a (fdiv r bg))" by (rule fmul_finite(1) [OF f1])
  have g2: "is_finite (fmul a (fdiv x bg))" by (rule fmul_finite(1) [OF f2])
  have h1: "is_finite (fdiv r bg)" by (rule fmul_finite(2) [OF g1])
  have h2: "is_finite (fdiv x bg)" by (rule fmul_finite(2) [OF g2])
  have v1: "valof (fmul (fmul a (fdiv r bg)) k) =
              rnd (rnd (valof a * rnd (valof r / valof bg)) * valof k)"
    by (simp only: fmul_finite(3) [OF f1] fmul_finite(3) [OF g1] fdiv_finite(2) [OF h1 nz])
  have v2: "valof (fmul (fmul a (fdiv x bg)) k) =
              rnd (rnd (valof a * rnd (valof x / valof bg)) * valof k)"
    by (simp only: fmul_finite(3) [OF f2] fmul_finite(3) [OF g2] fdiv_finite(2) [OF h2 nz])
  from le bg have "valof r / valof bg \<le> valof x / valof bg"
    by (simp add: divide_right_mono)
  then have q: "rnd (valof r / valof bg) \<le> rnd (valof x / valof bg)" by (rule rnd_mono)
  show ?thesis
  proof (intro conjI impI)
    assume "0 \<le> valof a"
    with q have "valof a * rnd (valof r / valof bg) \<le> valof a * rnd (valof x / valof bg)"
      by (rule mult_left_mono)
    then have "rnd (valof a * rnd (valof r / valof bg)) \<le> rnd (valof a * rnd (valof x / valof bg))"
      by (rule rnd_mono)
    then have "rnd (valof a * rnd (valof r / valof bg)) * valof k
                 \<le> rnd (valof a * rnd (valof x / valof bg)) * valof k"
      using k by (rule mult_right_mono)
    then show "valof (fmul (fmul a (fdiv r bg)) k) \<le> valof (fmul (fmul a (fdiv x bg)) k)"
      unfolding v1 v2 by (rule rnd_mono)
  next
    assume "valof a \<le> 0"
    with q have "valof a * rnd (valof x / valof bg) \<le> valof a * rnd (valof r / valof bg)"
      by (rule mult_left_mono_neg)
    then have "rnd (valof a * rnd (valof x / valof bg)) \<le> rnd (valof a * rnd (valof r / valof bg))"
      by (rule rnd_mono)
    then have "rnd (valof a * rnd (valof x / valof bg)) * valof k
                 \<le> rnd (valof a * rnd (valof r / valof bg)) * valof k"
      using k by (rule mult_right_mono)
    then show "valof (fmul (fmul a (fdiv x bg)) k) \<le> valof (fmul (fmul a (fdiv r bg)) k)"
      unfolding v1 v2 by (rule rnd_mono)
  qed
qed

text \<open>A finite sum has finite summands, and is monotone in each of them.\<close>

lemma foldl_fadd_finite:
  assumes "is_finite (foldl fadd a (map f [0 ..< n]))" and "k < n"
  shows "is_finite (f k)"
  using assms
proof (induction n)
  case 0
  then show ?case by simp
next
  case (Suc n)
  from Suc.prems(1) have s: "is_finite (fadd (foldl fadd a (map f [0 ..< n])) (f n))" by simp
  show ?case
  proof (cases "k = n")
    case True
    with fadd_finite(2) [OF s] show ?thesis by simp
  next
    case False
    with Suc.prems(2) have "k < n" by simp
    with Suc.IH fadd_finite(1) [OF s] show ?thesis by simp
  qed
qed

lemma foldl_fadd_mono:
  assumes "\<And>k. k < n \<Longrightarrow> is_finite (f k) \<Longrightarrow> is_finite (g k) \<Longrightarrow> valof (f k) \<le> valof (g k)"
    and "is_finite (foldl fadd a (map f [0 ..< n]))"
    and "is_finite (foldl fadd a (map g [0 ..< n]))"
  shows "valof (foldl fadd a (map f [0 ..< n])) \<le> valof (foldl fadd a (map g [0 ..< n]))"
  using assms
proof (induction n)
  case 0
  then show ?case by simp
next
  case (Suc n)
  from Suc.prems(2) have s: "is_finite (fadd (foldl fadd a (map f [0 ..< n])) (f n))" by simp
  from Suc.prems(3) have s': "is_finite (fadd (foldl fadd a (map g [0 ..< n])) (g n))" by simp
  have "valof (foldl fadd a (map f [0 ..< n])) \<le> valof (foldl fadd a (map g [0 ..< n]))"
    using Suc.prems(1) fadd_finite(1) [OF s] fadd_finite(1) [OF s'] by (intro Suc.IH) simp_all
  moreover have "valof (f n) \<le> valof (g n)"
    using Suc.prems(1) [of n] fadd_finite(2) [OF s] fadd_finite(2) [OF s'] by simp
  ultimately have "rnd (valof (foldl fadd a (map f [0 ..< n])) + valof (f n))
                     \<le> rnd (valof (foldl fadd a (map g [0 ..< n])) + valof (g n))"
    by (intro rnd_mono) linarith
  then show ?case
    using fadd_finite(3) [OF s] fadd_finite(3) [OF s'] by simp
qed

lemma total_mono:
  assumes f1: "is_finite (fadd e (fadd (Finite 0) s))"
    and f2: "is_finite (fadd e (fadd (Finite 0) s'))"
    and le: "valof s \<le> valof s'"
  shows "valof (fadd e (fadd (Finite 0) s)) \<le> valof (fadd e (fadd (Finite 0) s'))"
proof -
  have g1: "is_finite (fadd (Finite 0) s)" by (rule fadd_finite(2) [OF f1])
  have g2: "is_finite (fadd (Finite 0) s')" by (rule fadd_finite(2) [OF f2])
  have v1: "valof (fadd e (fadd (Finite 0) s)) = rnd (valof e + rnd (0 + valof s))"
    using fadd_finite(3) [OF f1] fadd_finite(3) [OF g1] by simp
  have v2: "valof (fadd e (fadd (Finite 0) s')) = rnd (valof e + rnd (0 + valof s'))"
    using fadd_finite(3) [OF f2] fadd_finite(3) [OF g2] by simp
  from le have "rnd (0 + valof s) \<le> rnd (0 + valof s')" by (intro rnd_mono) simp
  then have "valof e + rnd (0 + valof s) \<le> valof e + rnd (0 + valof s')" by simp
  then show ?thesis unfolding v1 v2 by (rule rnd_mono)
qed

lemma total_finite_sum:
  assumes "is_finite (fadd e (fadd (Finite 0) s))"
  shows "is_finite s"
  by (rule fadd_finite(2) [OF fadd_finite(2) [OF assms]])

lemma astype_int_mono:
  assumes "rounds_to_int64 t'" and "is_finite t \<Longrightarrow> valof t \<le> valof t'"
  shows "astype_int (np_round t) \<le> astype_int (np_round t')"
proof (cases "rounds_to_int64 t")
  case True
  then have "is_finite t" by (simp add: rounds_to_int64_def)
  then have "round_half_even (valof t) \<le> round_half_even (valof t')"
    by (intro round_half_even_mono assms(2))
  with True assms(1) show ?thesis by (simp add: astype_int_round)
next
  case False
  with astype_int_range [of t'] show ?thesis by (simp add: astype_int_round)
qed


lemma well_shaped_update [simp]:
  "well_shaped nd tau_syn (rates[j := x]) = well_shaped nd tau_syn rates"
  by (simp add: well_shaped_def)

text \<open>
  The rounded total of one target population for two rate vectors that differ in the
  rate of the excluded population \<open>j\<close> only; \<open>e\<close> is the original external in-degree.
\<close>

lemma target_rate_mono:
  assumes j: "j < length rates"
    and we: "0 < valof (weight_ext nd)" and te: "0 < valof (tau_syn_ex p)"
    and bg: "0 < valof (bg_rate nd)" and t: "0 < valof (tau_syn ! j)"
    and k: "0 \<le> valof (indegrees nd ! i ! j)"
    and le: "valof (rates ! j) \<le> valof x"
  shows "(0 < valof (weight_matrix_mean nd ! i ! j) \<and>
          rounds_to_int64 (fadd e (fadd (Finite 0)
            (compensation_sum nd p tau_syn (rates[j := x]) i))) \<longrightarrow>
          astype_int (np_round (fadd e (fadd (Finite 0)
            (compensation_sum nd p tau_syn rates i))))
          \<le> astype_int (np_round (fadd e (fadd (Finite 0)
            (compensation_sum nd p tau_syn (rates[j := x]) i))))) \<and>
         (valof (weight_matrix_mean nd ! i ! j) < 0 \<and>
          rounds_to_int64 (fadd e (fadd (Finite 0)
            (compensation_sum nd p tau_syn rates i))) \<longrightarrow>
          astype_int (np_round (fadd e (fadd (Finite 0)
            (compensation_sum nd p tau_syn (rates[j := x]) i))))
          \<le> astype_int (np_round (fadd e (fadd (Finite 0)
            (compensation_sum nd p tau_syn rates i)))))"
proof -
  let ?f = "contribution nd p tau_syn rates i"
  let ?g = "contribution nd p tau_syn (rates[j := x]) i"
  let ?a = "fdiv (fmul (weight_matrix_mean nd ! i ! j) (tau_syn ! j))
              (fmul (weight_ext nd) (tau_syn_ex p))"
  let ?s = "compensation_sum nd p tau_syn rates i"
  let ?s' = "compensation_sum nd p tau_syn (rates[j := x]) i"
  let ?t = "fadd e (fadd (Finite 0) ?s)"
  let ?t' = "fadd e (fadd (Finite 0) ?s')"
  have other: "?g k = ?f k" if "k \<noteq> j" for k
    using that by (simp add: contribution_def)
  have fj: "?f j = fmul (fmul ?a (fdiv (rates ! j) (bg_rate nd))) (indegrees nd ! i ! j)"
    by (simp add: contribution_def)
  have gj: "?g j = fmul (fmul ?a (fdiv x (bg_rate nd))) (indegrees nd ! i ! j)"
    using j by (simp add: contribution_def)
  have at_j: "(0 \<le> valof (weight_matrix_mean nd ! i ! j) \<longrightarrow> valof (?f j) \<le> valof (?g j)) \<and>
              (valof (weight_matrix_mean nd ! i ! j) \<le> 0 \<longrightarrow> valof (?g j) \<le> valof (?f j))"
    if f: "is_finite (?f j)" and g: "is_finite (?g j)"
  proof -
    from f have "is_finite (fmul ?a (fdiv (rates ! j) (bg_rate nd)))"
      unfolding fj by (rule fmul_finite(1))
    then have a: "is_finite ?a" by (rule fmul_finite(1))
    from ratio_sign [OF a t we te] scaled_rate_mono [OF f [unfolded fj] g [unfolded gj] bg k le]
    show ?thesis unfolding fj gj by blast
  qed
  have sums: "(0 \<le> valof (weight_matrix_mean nd ! i ! j) \<longrightarrow> valof ?s \<le> valof ?s') \<and>
              (valof (weight_matrix_mean nd ! i ! j) \<le> 0 \<longrightarrow> valof ?s' \<le> valof ?s)"
    if f: "is_finite ?s" and g: "is_finite ?s'"
  proof (intro conjI impI)
    assume w: "0 \<le> valof (weight_matrix_mean nd ! i ! j)"
    show "valof ?s \<le> valof ?s'"
      unfolding compensation_sum_def
    proof (rule foldl_fadd_mono)
      fix k
      assume "is_finite (?f k)" and "is_finite (?g k)"
      with at_j w other [of k] show "valof (?f k) \<le> valof (?g k)"
        by (cases "k = j") simp_all
    next
      from f show "is_finite (foldl fadd (Finite 0) (map ?f [0 ..< 6]))"
        by (simp only: compensation_sum_def)
    next
      from g show "is_finite (foldl fadd (Finite 0) (map ?g [0 ..< 6]))"
        by (simp only: compensation_sum_def)
    qed
  next
    assume w: "valof (weight_matrix_mean nd ! i ! j) \<le> 0"
    show "valof ?s' \<le> valof ?s"
      unfolding compensation_sum_def
    proof (rule foldl_fadd_mono)
      fix k
      assume "is_finite (?g k)" and "is_finite (?f k)"
      with at_j w other [of k] show "valof (?g k) \<le> valof (?f k)"
        by (cases "k = j") simp_all
    next
      from g show "is_finite (foldl fadd (Finite 0) (map ?g [0 ..< 6]))"
        by (simp only: compensation_sum_def)
    next
      from f show "is_finite (foldl fadd (Finite 0) (map ?f [0 ..< 6]))"
        by (simp only: compensation_sum_def)
    qed
  qed
  have totals: "(0 \<le> valof (weight_matrix_mean nd ! i ! j) \<longrightarrow> valof ?t \<le> valof ?t') \<and>
                (valof (weight_matrix_mean nd ! i ! j) \<le> 0 \<longrightarrow> valof ?t' \<le> valof ?t)"
    if f: "is_finite ?t" and g: "is_finite ?t'"
    using sums [OF total_finite_sum [OF f] total_finite_sum [OF g]]
      total_mono [OF f g] total_mono [OF g f] by blast
  show ?thesis
  proof (intro conjI impI)
    assume h: "0 < valof (weight_matrix_mean nd ! i ! j) \<and> rounds_to_int64 ?t'"
    then have g: "is_finite ?t'" by (simp add: rounds_to_int64_def)
    from h have r: "rounds_to_int64 ?t'" by simp
    show "astype_int (np_round ?t) \<le> astype_int (np_round ?t')"
    proof (rule astype_int_mono [OF r])
      assume "is_finite ?t"
      from totals [OF this g] h show "valof ?t \<le> valof ?t'" by simp
    qed
  next
    assume h: "valof (weight_matrix_mean nd ! i ! j) < 0 \<and> rounds_to_int64 ?t"
    then have f: "is_finite ?t" by (simp add: rounds_to_int64_def)
    from h have r: "rounds_to_int64 ?t" by simp
    show "astype_int (np_round ?t') \<le> astype_int (np_round ?t)"
    proof (rule astype_int_mono [OF r])
      assume "is_finite ?t'"
      from totals [OF f this] h show "valof ?t' \<le> valof ?t" by simp
    qed
  qed
qed


text \<open>
  C5, as the code has it. Take a table of the full model's shape with positive external
  weight, excitatory time constant and background rate, an excluded population \<open>j\<close>
  with a positive synaptic time constant and non-negative recurrent in-degrees onto the
  two targets, and two finite rates \<open>r \<le> x\<close> for \<open>j\<close>, every other input the same.
  If the mean weight from \<open>j\<close> to a target is positive, the new external in-degree of
  that target at rate \<open>r\<close> is at most the one at rate \<open>x\<close>, provided the \<^verbatim>\<open>float64\<close>
  total that is rounded at rate \<open>x\<close> is finite and rounds to an \<^verbatim>\<open>int64\<close>; if the weight
  is negative, the one at \<open>x\<close> is at most the one at \<open>r\<close>, provided the total at rate
  \<open>r\<close> is finite and rounds to an \<^verbatim>\<open>int64\<close>.
\<close>

theorem rate_monotone:
  assumes shaped: "well_shaped nd tau_syn rates_meso" and len: "7 < length (ext_indegrees nd)"
    and we: "0 < valof (weight_ext nd)" and te: "0 < valof (tau_syn_ex p)"
    and bg: "0 < valof (bg_rate nd)"
    and j: "j < 6" and t: "0 < valof (tau_syn ! j)"
    and k6: "0 \<le> valof (indegrees nd ! 6 ! j)" and k7: "0 \<le> valof (indegrees nd ! 7 ! j)"
    and fin: "is_finite (rates_meso ! j)" "is_finite x"
    and le: "valof (rates_meso ! j) \<le> valof x"
  shows "\<exists>a b a' b'.
           adjusted_ext_indegrees nd p tau_syn rates_meso = Inr (a, b) \<and>
           adjusted_ext_indegrees nd p tau_syn (rates_meso[j := x]) = Inr (a', b') \<and>
           (0 < valof (weight_matrix_mean nd ! 6 ! j) \<and>
            rounds_to_int64 (fadd (ext_indegrees nd ! 6) (fadd (Finite 0)
              (compensation_sum nd p tau_syn (rates_meso[j := x]) 6))) \<longrightarrow> a \<le> a') \<and>
           (valof (weight_matrix_mean nd ! 6 ! j) < 0 \<and>
            rounds_to_int64 (fadd (ext_indegrees nd ! 6) (fadd (Finite 0)
              (compensation_sum nd p tau_syn rates_meso 6))) \<longrightarrow> a' \<le> a) \<and>
           (0 < valof (weight_matrix_mean nd ! 7 ! j) \<and>
            rounds_to_int64 (fadd (ext_indegrees nd ! 7) (fadd (Finite 0)
              (compensation_sum nd p tau_syn (rates_meso[j := x]) 7))) \<longrightarrow> b \<le> b') \<and>
           (valof (weight_matrix_mean nd ! 7 ! j) < 0 \<and>
            rounds_to_int64 (fadd (ext_indegrees nd ! 7) (fadd (Finite 0)
              (compensation_sum nd p tau_syn rates_meso 7))) \<longrightarrow> b' \<le> b)"
proof -
  from shaped j have jl: "j < length rates_meso" by (simp add: well_shaped_def)
  from shaped have shaped': "well_shaped nd tau_syn (rates_meso[j := x])" by simp
  note m6 = target_rate_mono [OF jl we te bg t k6 le, of "ext_indegrees nd ! 6"]
  note m7 = target_rate_mono [OF jl we te bg t k7 le, of "ext_indegrees nd ! 7"]
  show ?thesis
    unfolding adjusted_shaped [OF shaped len] adjusted_shaped [OF shaped' len]
    using m6 m7 by blast
qed

subsection \<open>Rate 3 for the excitatory and for the inhibitory source\<close>

lemma nd_exc_three:
  "adjusted_ext_indegrees nd_exc meso_neuron_params (tau_syn_array meso_neuron_params)
     (rates_two[0 := Finite 3]) = Inr (3002, 3035)"
  "fadd (ext_indegrees nd_exc ! 6) (fadd (Finite 0) (compensation_sum nd_exc meso_neuron_params
     (tau_syn_array meso_neuron_params) (rates_two[0 := Finite 3]) 6)) = Finite (6005 / 2)"
  "fadd (ext_indegrees nd_exc ! 7) (fadd (Finite 0) (compensation_sum nd_exc meso_neuron_params
     (tau_syn_array meso_neuron_params) (rates_two[0 := Finite 3]) 7)) = Finite 3035"
proof -
  have c: "map (contribution nd_exc meso_neuron_params (tau_syn_array meso_neuron_params)
             (rates_two[0 := Finite 3]) i) [0 ..< 6] = map Finite [3000, 0, 0, 0, 0, 0]"
    if "i = 6 \<or> i = 7" for i
    unfolding nd_exc_def upt_6
    by (simp add: contribution_table [OF that] rates_two_def float_eval)
  have s: "compensation_sum nd_exc meso_neuron_params (tau_syn_array meso_neuron_params)
             (rates_two[0 := Finite 3]) i = Finite 3000" if "i = 6 \<or> i = 7" for i
    by (simp add: compensation_sum_def c [OF that] float_eval)
  have sh: "well_shaped nd_exc (tau_syn_array meso_neuron_params) (rates_two[0 := Finite 3])"
    by (simp add: nd_exc_shaped)
  have r: "round_half_even (6005 / 2) = 3002" using round_half_even_tie [of 3002] by simp
  show "adjusted_ext_indegrees nd_exc meso_neuron_params (tau_syn_array meso_neuron_params)
     (rates_two[0 := Finite 3]) = Inr (3002, 3035)"
    by (simp add: adjusted_shaped [OF sh] nd_exc_ext s float_eval astype_int_round
        rounds_to_int64_def r)
  show "fadd (ext_indegrees nd_exc ! 6) (fadd (Finite 0) (compensation_sum nd_exc meso_neuron_params
     (tau_syn_array meso_neuron_params) (rates_two[0 := Finite 3]) 6)) = Finite (6005 / 2)"
    by (simp add: nd_exc_ext s float_eval)
  show "fadd (ext_indegrees nd_exc ! 7) (fadd (Finite 0) (compensation_sum nd_exc meso_neuron_params
     (tau_syn_array meso_neuron_params) (rates_two[0 := Finite 3]) 7)) = Finite 3035"
    by (simp add: nd_exc_ext s float_eval)
qed

lemma nd_inh_three:
  "adjusted_ext_indegrees nd_inh meso_neuron_params (tau_syn_array meso_neuron_params)
     (rates_two[3 := Finite 3]) = Inr (- 11998, - 11965)"
  "fadd (ext_indegrees nd_inh ! 6) (fadd (Finite 0) (compensation_sum nd_inh meso_neuron_params
     (tau_syn_array meso_neuron_params) rates_two 6)) = Finite (- (15995 / 2))"
  "fadd (ext_indegrees nd_inh ! 7) (fadd (Finite 0) (compensation_sum nd_inh meso_neuron_params
     (tau_syn_array meso_neuron_params) rates_two 7)) = Finite (- 7965)"
proof -
  have c: "map (contribution nd_inh meso_neuron_params (tau_syn_array meso_neuron_params)
             (rates_two[3 := Finite 3]) i) [0 ..< 6] = map Finite [0, 0, 0, - 12000, 0, 0]"
    if "i = 6 \<or> i = 7" for i
    unfolding nd_inh_def upt_6
    by (simp add: contribution_table [OF that] rates_two_def float_eval)
  have s: "compensation_sum nd_inh meso_neuron_params (tau_syn_array meso_neuron_params)
             (rates_two[3 := Finite 3]) i = Finite (- 12000)" if "i = 6 \<or> i = 7" for i
    by (simp add: compensation_sum_def c [OF that] float_eval)
  have sh: "well_shaped nd_inh (tau_syn_array meso_neuron_params) (rates_two[3 := Finite 3])"
    by (simp add: nd_exc_shaped)
  have r: "round_half_even (- (23995 / 2)) = - 11998"
    using round_half_even_tie [of "- 11998"] by simp
  show "adjusted_ext_indegrees nd_inh meso_neuron_params (tau_syn_array meso_neuron_params)
     (rates_two[3 := Finite 3]) = Inr (- 11998, - 11965)"
    by (simp add: adjusted_shaped [OF sh] nd_inh_ext s float_eval astype_int_round
        rounds_to_int64_def r)
  show "fadd (ext_indegrees nd_inh ! 6) (fadd (Finite 0) (compensation_sum nd_inh meso_neuron_params
     (tau_syn_array meso_neuron_params) rates_two 6)) = Finite (- (15995 / 2))"
    by (simp add: nd_inh_ext nd_inh_sum float_eval)
  show "fadd (ext_indegrees nd_inh ! 7) (fadd (Finite 0) (compensation_sum nd_inh meso_neuron_params
     (tau_syn_array meso_neuron_params) rates_two 7)) = Finite (- 7965)"
    by (simp add: nd_inh_ext nd_inh_sum float_eval)
qed

lemma table_positive:
  "0 < valof (weight_ext (table_with wrow krow ext))"
  "0 < valof (bg_rate (table_with wrow krow ext))"
  "0 < valof (tau_syn_ex meso_neuron_params)"
  "j < 6 \<Longrightarrow> 0 < valof (tau_syn_array meso_neuron_params ! j)"
proof -
  show "0 < valof (weight_ext (table_with wrow krow ext))"
    "0 < valof (bg_rate (table_with wrow krow ext))"
    "0 < valof (tau_syn_ex meso_neuron_params)"
    by (simp_all add: table_with_rows meso_tau_syn_ex)
  assume "j < 6"
  from less_6_cases [OF this] show "0 < valof (tau_syn_array meso_neuron_params ! j)"
    by (auto simp add: tau_syn_array_meso)
qed


theorem rate_monotone_witness:
  "well_shaped nd_exc (tau_syn_array meso_neuron_params) rates_two \<and>
   7 < length (ext_indegrees nd_exc) \<and>
   0 < valof (weight_matrix_mean nd_exc ! 6 ! 0) \<and>
   0 < valof (weight_matrix_mean nd_exc ! 7 ! 0) \<and>
   valof (rates_two ! 0) \<le> valof (Finite 3) \<and>
   rounds_to_int64 (Finite (6005 / 2)) \<and> rounds_to_int64 (Finite 3035) \<and>
   adjusted_ext_indegrees nd_exc meso_neuron_params (tau_syn_array meso_neuron_params) rates_two =
     Inr (2002, 2035) \<and>
   adjusted_ext_indegrees nd_exc meso_neuron_params (tau_syn_array meso_neuron_params)
     (rates_two[0 := Finite 3]) = Inr (3002, 3035) \<and>
   well_shaped nd_inh (tau_syn_array meso_neuron_params) rates_two \<and>
   7 < length (ext_indegrees nd_inh) \<and>
   valof (weight_matrix_mean nd_inh ! 6 ! 3) < 0 \<and>
   valof (weight_matrix_mean nd_inh ! 7 ! 3) < 0 \<and>
   valof (rates_two ! 3) \<le> valof (Finite 3) \<and>
   rounds_to_int64 (Finite (- (15995 / 2))) \<and> rounds_to_int64 (Finite (- 7965)) \<and>
   adjusted_ext_indegrees nd_inh meso_neuron_params (tau_syn_array meso_neuron_params) rates_two =
     Inr (- 7998, - 7965) \<and>
   adjusted_ext_indegrees nd_inh meso_neuron_params (tau_syn_array meso_neuron_params)
     (rates_two[3 := Finite 3]) = Inr (- 11998, - 11965) \<and>
   (\<exists>a b a' b'.
      adjusted_ext_indegrees nd_exc meso_neuron_params (tau_syn_array meso_neuron_params)
        rates_two = Inr (a, b) \<and>
      adjusted_ext_indegrees nd_exc meso_neuron_params (tau_syn_array meso_neuron_params)
        (rates_two[0 := Finite 3]) = Inr (a', b') \<and> a \<le> a' \<and> b \<le> b') \<and>
   (\<exists>a b a' b'.
      adjusted_ext_indegrees nd_inh meso_neuron_params (tau_syn_array meso_neuron_params)
        rates_two = Inr (a, b) \<and>
      adjusted_ext_indegrees nd_inh meso_neuron_params (tau_syn_array meso_neuron_params)
        (rates_two[3 := Finite 3]) = Inr (a', b') \<and> a' \<le> a \<and> b' \<le> b)"
proof -
  let ?tau = "tau_syn_array meso_neuron_params"
  have len: "7 < length (ext_indegrees nd_exc)" "7 < length (ext_indegrees nd_inh)"
    by (simp_all add: nd_exc_ext nd_inh_ext)
  have w: "weight_matrix_mean nd_exc ! 6 ! 0 = Finite 10"
    "weight_matrix_mean nd_exc ! 7 ! 0 = Finite 10"
    "weight_matrix_mean nd_inh ! 6 ! 3 = Finite (- 10)"
    "weight_matrix_mean nd_inh ! 7 ! 3 = Finite (- 10)"
    by (simp_all add: nd_exc_def nd_inh_def table_with_rows)
  have k: "indegrees nd_exc ! 6 ! 0 = Finite 100" "indegrees nd_exc ! 7 ! 0 = Finite 100"
    "indegrees nd_inh ! 6 ! 3 = Finite 100" "indegrees nd_inh ! 7 ! 3 = Finite 100"
    by (simp_all add: nd_exc_def nd_inh_def table_with_rows)
  have r: "rates_two ! 0 = Finite 2" "rates_two ! 3 = Finite 2"
    by (simp_all add: rates_two_def)
  have pos: "0 < valof (weight_ext nd_exc)" "0 < valof (bg_rate nd_exc)"
    "0 < valof (weight_ext nd_inh)" "0 < valof (bg_rate nd_inh)"
    "0 < valof (tau_syn_ex meso_neuron_params)"
    "0 < valof (?tau ! 0)" "0 < valof (?tau ! 3)"
    by (simp_all add: nd_exc_def nd_inh_def table_positive)
  have rng: "rounds_to_int64 (Finite (6005 / 2))" "rounds_to_int64 (Finite 3035)"
    "rounds_to_int64 (Finite (- (15995 / 2)))" "rounds_to_int64 (Finite (- 7965))"
    by (simp_all add: rounds_to_int64_def)
  have exc: "\<exists>a b a' b'.
      adjusted_ext_indegrees nd_exc meso_neuron_params ?tau rates_two = Inr (a, b) \<and>
      adjusted_ext_indegrees nd_exc meso_neuron_params ?tau (rates_two[0 := Finite 3])
        = Inr (a', b') \<and> a \<le> a' \<and> b \<le> b'"
    using rate_monotone [OF nd_exc_shaped(1) len(1) pos(1) pos(5) pos(2) _ pos(6),
        of "Finite 3"]
    by (simp add: w k r rng nd_exc_three(2,3))
  have inh: "\<exists>a b a' b'.
      adjusted_ext_indegrees nd_inh meso_neuron_params ?tau rates_two = Inr (a, b) \<and>
      adjusted_ext_indegrees nd_inh meso_neuron_params ?tau (rates_two[3 := Finite 3])
        = Inr (a', b') \<and> a' \<le> a \<and> b' \<le> b"
    using rate_monotone [OF nd_exc_shaped(3) len(2) pos(3) pos(5) pos(4) _ pos(7),
        of "Finite 3"]
    by (simp add: w k r rng nd_inh_three(2,3))
  from exc inh len rng show ?thesis
    by (simp add: nd_exc_shaped w r nd_exc_adjusted nd_inh_adjusted nd_exc_three(1)
        nd_inh_three(1))
qed

subsection \<open>A rate that takes the total out of the 64-bit integers\<close>

lemma representable_powers_of_ten [simp]:
  "representable 10000000000000000" "representable 100000000000000000"
  "representable 10000000000000000000"
  using representable_scaled [of 152587890625 16] representable_scaled [of 762939453125 17]
    representable_scaled [of 19073486328125 19]
  by simp_all

lemma rnd_above_int64:
  "rnd (20000000000000000005 / 2) = 10000000000000000000"
  "rnd 10000000000000000035 = 10000000000000000000"
proof -
  have "rnd (20000000000000000005 / 2) =
          of_int (round_half_even ((20000000000000000005 / 2) / 2 powi (63 - 52))) * 2 powi (63 - 52)"
    by (rule rnd_eval) simp_all
  also have "(20000000000000000005 / 2) / 2 powi (63 - 52) = (20000000000000000005 / 4096 :: real)"
    by simp
  also have "round_half_even (20000000000000000005 / 4096) = 4882812500000000"
    by (simp add: round_half_even_def Let_def)
  finally show "rnd (20000000000000000005 / 2) = 10000000000000000000" by simp
  have "rnd 10000000000000000035 =
          of_int (round_half_even (10000000000000000035 / 2 powi (63 - 52))) * 2 powi (63 - 52)"
    by (rule rnd_eval) simp_all
  also have "10000000000000000035 / 2 powi (63 - 52) = (10000000000000000035 / 2048 :: real)"
    by simp
  also have "round_half_even (10000000000000000035 / 2048) = 4882812500000000"
    by (simp add: round_half_even_def Let_def)
  finally show "rnd 10000000000000000035 = 10000000000000000000" by simp
qed

lemma fl_above_int64 [simp]:
  "fl neg (20000000000000000005 / 2) = Finite 10000000000000000000"
  "fl neg 10000000000000000035 = Finite 10000000000000000000"
proof -
  have "(10000000000000000000::real) < 2 ^ 64" by simp
  also have "(2::real) ^ 64 \<le> 2 ^ 1024" by (rule power_increasing) simp_all
  finally have b: "\<not> (2::real) ^ 1024 \<le> 10000000000000000000" by simp
  show "fl neg (20000000000000000005 / 2) = Finite 10000000000000000000"
    "fl neg 10000000000000000035 = Finite 10000000000000000000"
    using b by (simp_all add: fl_def rnd_above_int64)
qed

lemma nd_exc_huge:
  "adjusted_ext_indegrees nd_exc meso_neuron_params (tau_syn_array meso_neuron_params) rates_huge =
     Inr (- (2 ^ 63), - (2 ^ 63))"
proof -
  have c: "map (contribution nd_exc meso_neuron_params (tau_syn_array meso_neuron_params)
             rates_huge i) [0 ..< 6] = map Finite [10000000000000000000, 0, 0, 0, 0, 0]"
    if "i = 6 \<or> i = 7" for i
    unfolding nd_exc_def upt_6
    by (simp add: contribution_table [OF that] rates_huge_def float_eval)
  have s: "compensation_sum nd_exc meso_neuron_params (tau_syn_array meso_neuron_params)
             rates_huge i = Finite 10000000000000000000" if "i = 6 \<or> i = 7" for i
    by (simp add: compensation_sum_def c [OF that] float_eval)
  show ?thesis
    by (simp add: adjusted_shaped [OF nd_exc_shaped(5)] nd_exc_ext s float_eval astype_int_round
        rounds_to_int64_def)
qed

text \<open>
  C5, as stated, fails: the new in-degree is an \<^verbatim>\<open>int64\<close>, and a total of \<open>2 ^ 63\<close> or more
  is converted to the smallest \<^verbatim>\<open>int64\<close>. On the table with the one excitatory source of
  weight 10 and in-degree 100, raising the rate of that source from 2 to \<open>10 ^ 16\<close>
  takes the new in-degree of L6E from 2002 to \<open>- 2 ^ 63\<close>.
\<close>

theorem rate_overflow_counterexample:
  "0 < valof (weight_matrix_mean nd_exc ! 6 ! 0) \<and>
   0 < valof (weight_ext nd_exc) \<and> 0 < valof (bg_rate nd_exc) \<and>
   0 < valof (tau_syn_ex meso_neuron_params) \<and>
   0 < valof (tau_syn_array meso_neuron_params ! 0) \<and>
   0 \<le> valof (indegrees nd_exc ! 6 ! 0) \<and>
   rates_two ! 0 = Finite 2 \<and> rates_two[0 := Finite (10 ^ 16)] = rates_huge \<and>
   adjusted_ext_indegrees nd_exc meso_neuron_params (tau_syn_array meso_neuron_params) rates_two =
     Inr (2002, 2035) \<and>
   adjusted_ext_indegrees nd_exc meso_neuron_params (tau_syn_array meso_neuron_params)
     (rates_two[0 := Finite (10 ^ 16)]) = Inr (- (2 ^ 63), - (2 ^ 63)) \<and>
   \<not> (2002 :: int) \<le> - (2 ^ 63)"
proof -
  have u: "rates_two[0 := Finite (10 ^ 16)] = rates_huge"
    by (simp add: rates_two_def rates_huge_def)
  have w: "weight_matrix_mean nd_exc ! 6 ! 0 = Finite 10" "indegrees nd_exc ! 6 ! 0 = Finite 100"
    by (simp_all add: nd_exc_def table_with_rows)
  have pos: "0 < valof (weight_ext nd_exc)" "0 < valof (bg_rate nd_exc)"
    "0 < valof (tau_syn_ex meso_neuron_params)"
    "0 < valof (tau_syn_array meso_neuron_params ! 0)"
    by (simp_all add: nd_exc_def table_positive)
  have r: "rates_two ! 0 = Finite 2" by (simp add: rates_two_def)
  show ?thesis
    unfolding u by (simp add: w pos r nd_exc_adjusted nd_exc_huge)
qed

end
